theory Spec2Isabelle
  imports Complex_Main "HOL-Library.Char_ord" "HOL-Library.List_Lexorder" "HOL-Library.Product_Lexorder"
begin

section \<open>Python string operations on ASCII text\<close>

text \<open>
  Addresses, corridor names and geocoder answers are Python \<open>str\<close> values. They are
  modelled as \<open>string\<close> (a list of 8-bit characters) and the operations below follow
  Python on ASCII text: \<open>upper\<close> maps \<open>a\<close>..\<open>z\<close> to \<open>A\<close>..\<open>Z\<close> and leaves every other
  character alone, and the whitespace that \<open>strip\<close> removes is the ASCII part of
  \<open>str.isspace\<close> (codes 9 to 13, 28 to 31 and 32).
\<close>

definition py_isspace :: "char \<Rightarrow> bool" where
  "py_isspace c = (let n = (of_char c :: nat) in (9 \<le> n \<and> n \<le> 13) \<or> (28 \<le> n \<and> n \<le> 31) \<or> n = 32)"

definition py_upper_char :: "char \<Rightarrow> char" where
  "py_upper_char c = (let n = (of_char c :: nat) in if 97 \<le> n \<and> n \<le> 122 then char_of (n - 32) else c)"

definition py_upper :: "string \<Rightarrow> string" where
  "py_upper s = map py_upper_char s"

definition py_lstrip :: "string \<Rightarrow> string" where
  "py_lstrip s = dropWhile py_isspace s"

definition py_rstrip :: "string \<Rightarrow> string" where
  "py_rstrip s = rev (dropWhile py_isspace (rev s))"

definition py_strip :: "string \<Rightarrow> string" where
  "py_strip s = py_rstrip (py_lstrip s)"

definition startswith :: "string \<Rightarrow> string \<Rightarrow> bool" where
  "startswith s p = (take (length p) s = p)"

definition endswith :: "string \<Rightarrow> string \<Rightarrow> bool" where
  "endswith s p = (length p \<le> length s \<and> drop (length s - length p) s = p)"

text \<open>\<open>s[:-n]\<close> for a positive \<open>n\<close>: the string without its last \<open>n\<close> characters.\<close>

definition drop_last :: "nat \<Rightarrow> string \<Rightarrow> string" where
  "drop_last n s = take (length s - n) s"

text \<open>\<open>sub in s\<close>: \<open>sub\<close> occurs in \<open>s\<close> as a contiguous substring.\<close>

fun py_in :: "string \<Rightarrow> string \<Rightarrow> bool" where
  "py_in sub [] = (sub = [])"
| "py_in sub (c # cs) = (startswith (c # cs) sub \<or> py_in sub cs)"

section \<open>Street extraction and normalisation of the day-specific matcher\<close>

text \<open>
  \<open>re.match(r'^\\d+\\s+(.+)', s)\<close> as the matcher writes it: in a raw string the doubled
  backslashes are an escaped backslash each, so the pattern reads: a backslash, one or
  more letters \<open>d\<close>, a backslash, one or more letters \<open>s\<close>, then a group of one or more
  characters other than a newline. The result is group 1 of the match. Both repetitions
  are greedy; when nothing but a newline or the end follows the run of \<open>s\<close>, the run gives
  its last letter back to the group (possible only when it has two letters or more).
\<close>

definition re_match_number_prefix :: "string \<Rightarrow> string option" where
  "re_match_number_prefix s =
     (case s of
        [] \<Rightarrow> None
      | c1 # r1 \<Rightarrow>
          if c1 \<noteq> CHR 0x5C then None
          else
            let ds = takeWhile (\<lambda>c. c = CHR ''d'') r1;
                r2 = dropWhile (\<lambda>c. c = CHR ''d'') r1
            in if ds = [] then None
               else (case r2 of
                       [] \<Rightarrow> None
                     | c2 # r3 \<Rightarrow>
                         if c2 \<noteq> CHR 0x5C then None
                         else
                           let ss = takeWhile (\<lambda>c. c = CHR ''s'') r3;
                               r4 = dropWhile (\<lambda>c. c = CHR ''s'') r3;
                               g = takeWhile (\<lambda>c. c \<noteq> CHR 0x0A) r4
                           in if ss = [] then None
                              else if g \<noteq> [] then Some g
                              else if 2 \<le> length ss then Some ''s''
                              else None))"

definition prefixes :: "string list" where
  "prefixes = [''THE '', ''OLD '', ''NEW '']"

definition directional_suffixes :: "string list" where
  "directional_suffixes =
     [''NORTH'', ''SOUTH'', ''EAST'', ''WEST'', ''NE'', ''NW'', ''SE'', ''SW'',
      ''NORTHEAST'', ''NORTHWEST'', ''SOUTHEAST'', ''SOUTHWEST'']"

definition street_types :: "string list" where
  "street_types =
     [''STREET'', ''ST'', ''AVENUE'', ''AVE'', ''BOULEVARD'', ''BLVD'',
      ''DRIVE'', ''DR'', ''COURT'', ''CT'', ''PLACE'', ''PL'', ''LANE'', ''LN'',
      ''ROAD'', ''RD'', ''PARKWAY'', ''PKWY'', ''CIRCLE'', ''CIR'', ''TERRACE'', ''TER'',
      ''WAY'', ''PLAZA'', ''PLZ'', ''SQUARE'', ''SQ'']"

text \<open>The three loops of \<open>extract_street_from_address\<close>, each leaving at its first hit.\<close>

fun remove_prefix :: "string list \<Rightarrow> string \<Rightarrow> string" where
  "remove_prefix [] s = s"
| "remove_prefix (p # ps) s =
     (if startswith s p then py_strip (drop (length p) s) else remove_prefix ps s)"

fun remove_directional :: "string list \<Rightarrow> string \<Rightarrow> string" where
  "remove_directional [] s = s"
| "remove_directional (d # ds) s =
     (if endswith s (CHR '' '' # d) then py_strip (drop_last (length (CHR '' '' # d)) s)
      else if startswith s (d @ '' '') then py_strip (drop (length (d @ '' '')) s)
      else remove_directional ds s)"

fun remove_street_type :: "string list \<Rightarrow> string \<Rightarrow> string" where
  "remove_street_type [] s = s"
| "remove_street_type (t # ts) s =
     (if endswith s (CHR '' '' # t) then py_strip (drop_last (length (CHR '' '' # t)) s)
      else if endswith s t \<and> length t < length s then py_strip (drop_last (length t) s)
      else remove_street_type ts s)"

definition extract_street_from_address :: "string \<Rightarrow> string" where
  "extract_street_from_address address =
     (if address = [] then []
      else
        let street_with_type =
              (case re_match_number_prefix (py_strip address) of
                 Some g \<Rightarrow> g
               | None \<Rightarrow> py_strip address);
            street_upper = py_strip (py_upper street_with_type);
            street_upper = remove_prefix prefixes street_upper;
            street_upper = remove_directional directional_suffixes street_upper
        in remove_street_type street_types street_upper)"

definition normalize_street_name :: "string \<Rightarrow> string" where
  "normalize_street_name street_name =
     (if street_name = [] then [] else filter (\<lambda>c. c \<noteq> CHR '' '') (py_upper street_name))"

text \<open>The token the matcher compares: extraction followed by normalisation.\<close>

definition normalize_token :: "string \<Rightarrow> string" where
  "normalize_token x = normalize_street_name (extract_street_from_address x)"

text \<open>A string that \<open>strip\<close> leaves alone: empty, or with no whitespace at either end.\<close>

definition stripped :: "string \<Rightarrow> bool" where
  "stripped s = (s = [] \<or> (\<not> py_isspace (hd s) \<and> \<not> py_isspace (last s)))"

text \<open>
  The second test of the street-type loop: \<open>s.endswith(t) and len(s) > len(t)\<close>, the
  type \<open>t\<close> closing the string with something left before it.
\<close>

definition proper_type_suffix :: "string \<Rightarrow> string \<Rightarrow> bool" where
  "proper_type_suffix s t = (endswith s t \<and> length t < length s)"

section \<open>More string operations\<close>

text \<open>\<open>s.replace(old, new)\<close>: every occurrence of \<open>old\<close>, from the left and without overlap.\<close>

function py_replace :: "string \<Rightarrow> string \<Rightarrow> string \<Rightarrow> string" where
  "py_replace old new s =
     (if old = [] then new @ concat (map (\<lambda>c. c # new) s)
      else if s = [] then []
      else if startswith s old then new @ py_replace old new (drop (length old) s)
      else hd s # py_replace old new (tl s))"
  by pat_completeness auto
termination
  by (relation "measure (\<lambda>(old, new, s). length s)") auto

text \<open>Decimal digits, and \<open>str\<close> and \<open>int\<close> between integers and their decimal text.\<close>

definition is_digit :: "char \<Rightarrow> bool" where
  "is_digit c = (let n = (of_char c :: nat) in 48 \<le> n \<and> n \<le> 57)"

definition digit_char :: "nat \<Rightarrow> char" where
  "digit_char d = char_of (48 + d)"

definition digit_value :: "char \<Rightarrow> nat" where
  "digit_value c = of_char c - 48"

fun str_nat :: "nat \<Rightarrow> string" where
  "str_nat n = (if n < 10 then [digit_char n] else str_nat (n div 10) @ [digit_char (n mod 10)])"

definition str_int :: "int \<Rightarrow> string" where
  "str_int i = (if i < 0 then CHR ''-'' # str_nat (nat (- i)) else str_nat (nat i))"

text \<open>\<open>int(ds)\<close> for a text of decimal digits.\<close>

definition int_of_digits :: "string \<Rightarrow> nat" where
  "int_of_digits ds = foldl (\<lambda>acc c. acc * 10 + digit_value c) 0 ds"

section \<open>The day-specific hybrid matcher\<close>

subsection \<open>Data\<close>

text \<open>A point is a pair (latitude, longitude) in degrees.\<close>

type_synonym point = "real \<times> real"

text \<open>
  One row of the day-specific schedule file, as the cleaner writes it and the matcher and
  the aggregator read it. The five week columns hold 0 or 1.
\<close>

record schedule_row =
  schedule_id :: int
  cnn :: int
  corridor :: string
  limits :: string
  cnn_right_left :: string
  block_side :: string
  weekday :: string
  scheduled_from_hour :: int
  scheduled_to_hour :: int
  week1 :: bool
  week2 :: bool
  week3 :: bool
  week4 :: bool
  week5 :: bool
  line :: string

text \<open>The three columns \<open>build_hybrid_index\<close> adds to each row.\<close>

record indexed_schedule = schedule_row +
  parsed_coords :: "point list option"
  base_corridor :: string
  normalized_corridor :: string

datatype day = Monday | Tuesday | Wednesday | Thursday | Friday | Saturday | Sunday

text \<open>\<open>dt.strftime('%A')\<close>\<close>

fun day_name :: "day \<Rightarrow> string" where
  "day_name Monday = ''Monday''"
| "day_name Tuesday = ''Tuesday''"
| "day_name Wednesday = ''Wednesday''"
| "day_name Thursday = ''Thursday''"
| "day_name Friday = ''Friday''"
| "day_name Saturday = ''Saturday''"
| "day_name Sunday = ''Sunday''"

text \<open>
  A geocoded citation. The \<open>datetime\<close> cell is kept as what \<open>datetime.fromisoformat\<close>
  makes of it: the day of the week, the hour and the minute, or \<open>None\<close> when the parse
  raises and the matcher falls back to its default.
\<close>

record citation_row =
  citation_id :: string
  address :: string
  latitude :: real
  longitude :: real
  datetime :: "(day \<times> nat \<times> nat) option"

record matcher_config =
  max_distance_meters :: real
  grid_size_meters :: real
  grid_search_radius :: int

text \<open>The constructor's defaults: 200 m, cells of 100 m, radius 1.\<close>

definition default_config :: matcher_config where
  "default_config = \<lparr> max_distance_meters = 200, grid_size_meters = 100, grid_search_radius = 1 \<rparr>"

record match =
  m_citation_id :: string
  m_schedule_id :: int
  m_distance_meters :: real
  m_weekday :: string
  m_scheduled_from_hour :: int
  m_scheduled_to_hour :: int
  m_citation_time :: real

subsection \<open>Grid cells\<close>

text \<open>Python's \<open>int\<close> on a float cuts the fraction off, towards zero.\<close>

definition py_int :: "real \<Rightarrow> int" where
  "py_int x = (if 0 \<le> x then \<lfloor>x\<rfloor> else \<lceil>x\<rceil>)"

text \<open>
  A Python float is an IEEE double. A double is a real number, but the product and the
  quotient of two doubles are rounded to a double again, so they are not the product and
  the quotient of the reals. The two rounded operations are parameters of the model, and
  nothing is assumed about the way they round (the parameters also stand for the way the
  literal 0.794 and the decimal coordinates are read as doubles). A theorem stated for
  every such pair of operations holds for the doubles of the program.
\<close>

record float_arith =
  fl_mul :: "real \<Rightarrow> real \<Rightarrow> real"
  fl_div :: "real \<Rightarrow> real \<Rightarrow> real"

text \<open>
  \<open>lat_lon_to_grid\<close>. A grid size of zero makes the division raise
  \<open>ZeroDivisionError\<close>, the function's \<open>None\<close>; the exception leaves every caller, so
  they return \<open>None\<close> as well.
\<close>

definition lat_lon_to_grid :: "float_arith \<Rightarrow> matcher_config \<Rightarrow> real \<Rightarrow> real \<Rightarrow> (int \<times> int) option" where
  "lat_lon_to_grid fa cfg lat lon =
     (if grid_size_meters cfg = 0 then None
      else
        let lat_meters = fl_mul fa lat 111000;
            lon_meters = fl_mul fa (fl_mul fa lon 111000) 0.794;
            grid_x = py_int (fl_div fa lat_meters (grid_size_meters cfg));
            grid_y = py_int (fl_div fa lon_meters (grid_size_meters cfg))
        in Some (grid_x, grid_y))"

subsection \<open>Distance to a schedule line\<close>

text \<open>
  \<open>geodesic\<close> is the distance function of the geopy library, a parameter here. The
  running minimum starts at infinity, written \<open>None\<close>.
\<close>

text \<open>\<open>min(min_distance, distance)\<close> with a running minimum that may still be infinite.\<close>

fun min_with_inf :: "real option \<Rightarrow> real \<Rightarrow> real option" where
  "min_with_inf None d = Some d"
| "min_with_inf (Some m) d = Some (min m d)"

fun min_distance_loop :: "(point \<Rightarrow> point \<Rightarrow> real) \<Rightarrow> point \<Rightarrow> point list \<Rightarrow> real option \<Rightarrow> real option" where
  "min_distance_loop geodesic p [] min_distance = min_distance"
| "min_distance_loop geodesic p (coord # coords) min_distance =
     min_distance_loop geodesic p coords (min_with_inf min_distance (geodesic p coord))"

definition calculate_distance_to_schedule ::
  "(point \<Rightarrow> point \<Rightarrow> real) \<Rightarrow> real \<Rightarrow> real \<Rightarrow> point list \<Rightarrow> real option" where
  "calculate_distance_to_schedule geodesic citation_lat citation_lon schedule_coordinates =
     (if schedule_coordinates = [] then None
      else min_distance_loop geodesic (citation_lat, citation_lon) schedule_coordinates None)"

subsection \<open>The distance of the earlier matcher\<close>

text \<open>
  \<open>citation_schedule_matcher.py\<close> in the archive measures the distance to a line
  differently: for each pair of consecutive vertices it takes the least distance to the
  two ends and to the points a quarter, a half and three quarters of the way along.
\<close>

definition point_to_line_segment_distance ::
  "(point \<Rightarrow> point \<Rightarrow> real) \<Rightarrow> point \<Rightarrow> point \<Rightarrow> point \<Rightarrow> real" where
  "point_to_line_segment_distance geodesic p line_start line_end =
     (if line_start = line_end then geodesic p line_start
      else min_list
             ([geodesic p line_start, geodesic p line_end] @
              map (\<lambda>t. geodesic p (fst line_start + t * (fst line_end - fst line_start),
                                     snd line_start + t * (snd line_end - snd line_start)))
                  [0.25, 0.5, 0.75]))"

fun segment_loop :: "(point \<Rightarrow> point \<Rightarrow> real) \<Rightarrow> point \<Rightarrow> point list \<Rightarrow> real option \<Rightarrow> real option" where
  "segment_loop geodesic p (p1 # p2 # rest) min_distance =
     segment_loop geodesic p (p2 # rest)
       (min_with_inf min_distance (point_to_line_segment_distance geodesic p p1 p2))"
| "segment_loop geodesic p _ min_distance = min_distance"

definition archive_calculate_distance_to_schedule ::
  "(point \<Rightarrow> point \<Rightarrow> real) \<Rightarrow> real \<Rightarrow> real \<Rightarrow> point list \<Rightarrow> real option" where
  "archive_calculate_distance_to_schedule geodesic citation_lat citation_lon schedule_coordinates =
     (if schedule_coordinates = [] then None
      else
        let p = (citation_lat, citation_lon);
            min_distance = segment_loop geodesic p schedule_coordinates None
        in if length schedule_coordinates = 1
           then min_with_inf min_distance (geodesic p (hd schedule_coordinates))
           else min_distance)"

subsection \<open>Building the index\<close>

text \<open>
  \<open>parse\<close> stands for \<open>parse_linestring_coordinates\<close>, which runs Python's \<open>eval\<close> on the
  \<open>line\<close> cell: it gives the vertices as (lat, lon) pairs, or \<open>None\<close> for a missing, empty
  or unreadable cell.
\<close>

definition add_index_columns :: "(string \<Rightarrow> point list option) \<Rightarrow> schedule_row \<Rightarrow> indexed_schedule" where
  "add_index_columns parse r =
     schedule_row.extend r
       \<lparr> parsed_coords = parse (line r),
         base_corridor = extract_street_from_address (corridor r),
         normalized_corridor = normalize_street_name (extract_street_from_address (corridor r)) \<rparr>"

text \<open>The grid: a cell's bucket of schedule indices, empty where nothing was stored.\<close>

type_synonym spatial_grid = "int \<times> int \<Rightarrow> nat list"

fun build_grid ::
  "float_arith \<Rightarrow> matcher_config \<Rightarrow> spatial_grid \<Rightarrow> (nat \<times> indexed_schedule) list
     \<Rightarrow> spatial_grid option" where
  "build_grid fa cfg grid [] = Some grid"
| "build_grid fa cfg grid ((idx, row) # rest) =
     (case parsed_coords row of
        Some ((lat, lon) # _) \<Rightarrow>
          (case lat_lon_to_grid fa cfg lat lon of
             None \<Rightarrow> None
           | Some cell \<Rightarrow> build_grid fa cfg (grid(cell := grid cell @ [idx])) rest)
      | _ \<Rightarrow> build_grid fa cfg grid rest)"

definition valid_schedules :: "(string \<Rightarrow> point list option) \<Rightarrow> schedule_row list \<Rightarrow> indexed_schedule list" where
  "valid_schedules parse schedule_df =
     filter (\<lambda>r. parsed_coords r \<noteq> None) (map (add_index_columns parse) schedule_df)"

definition build_hybrid_index ::
  "float_arith \<Rightarrow> matcher_config \<Rightarrow> (string \<Rightarrow> point list option) \<Rightarrow> schedule_row list
     \<Rightarrow> (indexed_schedule list \<times> spatial_grid) option" where
  "build_hybrid_index fa cfg parse schedule_df =
     (let schedules = valid_schedules parse schedule_df
      in case build_grid fa cfg (\<lambda>_. []) (enumerate 0 schedules) of
           None \<Rightarrow> None
         | Some grid \<Rightarrow> Some (schedules, grid))"

subsection \<open>Matching one citation\<close>

text \<open>
  Step 1. The buckets of the cells around the citation's cell, \<open>dx\<close> and \<open>dy\<close> running over
  \<open>range(-r, r + 1)\<close>. The source collects them in a set; the list here has each index
  once, in the order the loop meets them (a Python set iterates in an order of its own,
  which no claim depends on).
\<close>

definition spatial_candidates ::
  "float_arith \<Rightarrow> matcher_config \<Rightarrow> spatial_grid \<Rightarrow> real \<Rightarrow> real \<Rightarrow> nat list option" where
  "spatial_candidates fa cfg grid citation_lat citation_lon =
     (case lat_lon_to_grid fa cfg citation_lat citation_lon of
        None \<Rightarrow> None
      | Some (grid_x, grid_y) \<Rightarrow>
          let r = grid_search_radius cfg
          in Some (remdups (concat (map (\<lambda>dx. concat (map (\<lambda>dy. grid (grid_x + dx, grid_y + dy))
                                                         [- r..r])) [- r..r]))))"

text \<open>
  The cell under which a schedule is stored, if it is stored at all: the cell of the first
  vertex of its line.
\<close>

definition first_vertex_cell :: "float_arith \<Rightarrow> matcher_config \<Rightarrow> indexed_schedule \<Rightarrow> (int \<times> int) option" where
  "first_vertex_cell fa cfg row =
     (case parsed_coords row of
        Some ((lat, lon) # _) \<Rightarrow> lat_lon_to_grid fa cfg lat lon
      | _ \<Rightarrow> None)"

text \<open>The block of \<open>(2r + 1) \<times> (2r + 1)\<close> cells around a cell.\<close>

definition in_block :: "int \<Rightarrow> int \<times> int \<Rightarrow> int \<times> int \<Rightarrow> bool" where
  "in_block r centre cell =
     (\<bar>fst cell - fst centre\<bar> \<le> r \<and> \<bar>snd cell - snd centre\<bar> \<le> r)"

text \<open>Step 2. The street test, skipped when the citation has no street token.\<close>

definition street_names_match :: "string \<Rightarrow> string \<Rightarrow> bool" where
  "street_names_match citation_street_norm schedule_street_norm =
     (py_in citation_street_norm schedule_street_norm
      \<or> py_in schedule_street_norm citation_street_norm
      \<or> citation_street_norm = schedule_street_norm)"

definition street_candidates :: "indexed_schedule list \<Rightarrow> string \<Rightarrow> nat list \<Rightarrow> nat list" where
  "street_candidates schedules citation_street_norm spatial =
     (if citation_street_norm \<noteq> []
      then filter (\<lambda>idx. street_names_match citation_street_norm
                            (normalized_corridor (schedules ! idx))) spatial
      else spatial)"

text \<open>Step 3. Day and time of the citation, with the fallback of the \<open>except\<close> branch.\<close>

definition citation_weekday :: "citation_row \<Rightarrow> string" where
  "citation_weekday c = (case datetime c of Some (d, h, m) \<Rightarrow> day_name d | None \<Rightarrow> ''Tuesday'')"

definition citation_time_decimal :: "citation_row \<Rightarrow> real" where
  "citation_time_decimal c = (case datetime c of Some (d, h, m) \<Rightarrow> real h + real m / 60 | None \<Rightarrow> 10)"

definition day_and_time_candidates :: "indexed_schedule list \<Rightarrow> citation_row \<Rightarrow> nat list \<Rightarrow> nat list" where
  "day_and_time_candidates schedules c street =
     filter (\<lambda>idx.
        let schedule = schedules ! idx in
        weekday schedule = citation_weekday c
        \<and> real_of_int (scheduled_from_hour schedule) \<le> citation_time_decimal c
        \<and> citation_time_decimal c \<le> real_of_int (scheduled_to_hour schedule)) street"

text \<open>Step 4. Distance to each remaining schedule; those within the limit become matches.\<close>

definition schedule_distance ::
  "(point \<Rightarrow> point \<Rightarrow> real) \<Rightarrow> citation_row \<Rightarrow> indexed_schedule \<Rightarrow> real option" where
  "schedule_distance geodesic c schedule =
     (case parsed_coords schedule of
        None \<Rightarrow> None
      | Some coords \<Rightarrow> calculate_distance_to_schedule geodesic (latitude c) (longitude c) coords)"

definition make_match :: "citation_row \<Rightarrow> indexed_schedule \<Rightarrow> real \<Rightarrow> match" where
  "make_match c schedule distance =
     \<lparr> m_citation_id = citation_id c,
       m_schedule_id = schedule_id schedule,
       m_distance_meters = distance,
       m_weekday = citation_weekday c,
       m_scheduled_from_hour = scheduled_from_hour schedule,
       m_scheduled_to_hour = scheduled_to_hour schedule,
       m_citation_time = citation_time_decimal c \<rparr>"

fun distance_matches ::
  "matcher_config \<Rightarrow> (point \<Rightarrow> point \<Rightarrow> real) \<Rightarrow> indexed_schedule list \<Rightarrow> citation_row
     \<Rightarrow> nat list \<Rightarrow> match list" where
  "distance_matches cfg geodesic schedules c [] = []"
| "distance_matches cfg geodesic schedules c (idx # rest) =
     (case schedule_distance geodesic c (schedules ! idx) of
        Some d \<Rightarrow>
          if d \<le> max_distance_meters cfg
          then make_match c (schedules ! idx) d # distance_matches cfg geodesic schedules c rest
          else distance_matches cfg geodesic schedules c rest
      | None \<Rightarrow> distance_matches cfg geodesic schedules c rest)"

text \<open>
  The stages after the spatial one, with their early returns and the final sort, for the
  spatial candidates at hand.
\<close>

definition match_candidates ::
  "matcher_config \<Rightarrow> (point \<Rightarrow> point \<Rightarrow> real) \<Rightarrow> indexed_schedule list \<Rightarrow> citation_row
     \<Rightarrow> string \<Rightarrow> nat list \<Rightarrow> match list" where
  "match_candidates cfg geodesic schedules c citation_street_norm spatial =
     (if spatial = [] then []
      else
        let street = street_candidates schedules citation_street_norm spatial
        in if street = [] then []
           else
             let day_time = day_and_time_candidates schedules c street
             in if day_time = [] then []
                else sort_key m_distance_meters
                       (distance_matches cfg geodesic schedules c day_time))"

text \<open>The whole of \<open>hybrid_match_citation\<close>; \<open>None\<close> when the cell computation raises.\<close>

definition hybrid_match_citation ::
  "float_arith \<Rightarrow> matcher_config \<Rightarrow> (point \<Rightarrow> point \<Rightarrow> real) \<Rightarrow> indexed_schedule list
     \<Rightarrow> spatial_grid \<Rightarrow> citation_row \<Rightarrow> match list option" where
  "hybrid_match_citation fa cfg geodesic schedules grid c =
     (let citation_street = extract_street_from_address (address c);
          citation_street_norm = normalize_street_name citation_street
      in case spatial_candidates fa cfg grid (latitude c) (longitude c) of
           None \<Rightarrow> None
         | Some spatial \<Rightarrow>
             Some (match_candidates cfg geodesic schedules c citation_street_norm spatial))"

subsection \<open>Concrete data for evaluation\<close>

text \<open>
  The rule of the specification's end-to-end scenario: Mission St, odd side, Tuesday,
  hours 8 to 10, every week, a line of two vertices.
\<close>

definition mission_row :: schedule_row where
  "mission_row =
     \<lparr> schedule_id = 2000000, cnn = 9102000, corridor = ''Mission St'', limits = ''20th St  -  21st St'',
       cnn_right_left = ''R'', block_side = ''Odd'', weekday = ''Tuesday'',
       scheduled_from_hour = 8, scheduled_to_hour = 10,
       week1 = True, week2 = True, week3 = True, week4 = True, week5 = True,
       line = ''{'type': 'LineString', 'coordinates': [[-122.420, 37.760], [-122.419, 37.761]]}'' \<rparr>"

definition mission_rule :: indexed_schedule where
  "mission_rule =
     schedule_row.extend mission_row
       \<lparr> parsed_coords = Some [(37.760, -122.420), (37.761, -122.419)],
         base_corridor = ''MISSION'', normalized_corridor = ''MISSION'' \<rparr>"

definition tuesday_citation :: "string \<Rightarrow> nat \<Rightarrow> nat \<Rightarrow> citation_row" where
  "tuesday_citation addr h m =
     \<lparr> citation_id = ''C1'', address = addr, latitude = 37.760, longitude = -122.420,
       datetime = Some (Tuesday, h, m) \<rparr>"

text \<open>
  A distance to put in the place of \<open>geodesic\<close> when a definition is evaluated on
  concrete points: the taxicab distance in the matcher's own planar projection. Like the
  geodesic distance it is zero between equal points and positive between different ones.
\<close>

definition planar_distance :: "point \<Rightarrow> point \<Rightarrow> real" where
  "planar_distance p q = \<bar>fst p - fst q\<bar> * 111000 + \<bar>snd p - snd q\<bar> * 111000 * 0.794"

text \<open>A long block: one segment of a hundredth of a degree of latitude, about 1.1 km.\<close>

definition long_rule :: indexed_schedule where
  "long_rule = mission_rule\<lparr> parsed_coords := Some [(37.760, -122.420), (37.770, -122.420)] \<rparr>"

text \<open>The same block with its vertices in the other order.\<close>

definition long_rule_reversed :: indexed_schedule where
  "long_rule_reversed = mission_rule\<lparr> parsed_coords := Some [(37.770, -122.420), (37.760, -122.420)] \<rparr>"

text \<open>A configuration whose distance limit is one cell, so that it fits the search radius.\<close>

definition one_cell_config :: matcher_config where
  "one_cell_config = \<lparr> max_distance_meters = 100, grid_size_meters = 100, grid_search_radius = 1 \<rparr>"

text \<open>
  Arithmetic without rounding, to put in the place of the doubles' when a cell is
  evaluated on concrete coordinates; and what it means for rounded operations to stay
  within a relative error of the exact ones. The relative error of an operation on doubles is
  below one part in \<open>10^15\<close>.
\<close>

definition exact_arith :: float_arith where
  "exact_arith = \<lparr> fl_mul = (\<lambda>a b. a * b), fl_div = (\<lambda>a b. a / b) \<rparr>"

definition rounds_within :: "real \<Rightarrow> float_arith \<Rightarrow> bool" where
  "rounds_within eps fa =
     ((\<forall>a b. \<bar>fl_mul fa a b - a * b\<bar> \<le> eps * \<bar>a * b\<bar>)
      \<and> (\<forall>a b. b \<noteq> 0 \<longrightarrow> \<bar>fl_div fa a b - a / b\<bar> \<le> eps * \<bar>a / b\<bar>))"

section \<open>The estimates of the archived matcher\<close>

text \<open>
  \<open>citation_schedule_matcher.py\<close> labels every match with the relation of the citation's
  hour to the rule's window and later computes, per schedule, statistics over the matches
  it finds relevant.
\<close>

datatype time_relevance = DURING_SCHEDULE | AFTER_SCHEDULE | BEFORE_SCHEDULE | OUTSIDE_SCHEDULE

definition calculate_time_relevance :: "int \<Rightarrow> int \<Rightarrow> int \<Rightarrow> time_relevance" where
  "calculate_time_relevance citation_hour from_hour to_hour =
     (if from_hour \<le> citation_hour \<and> citation_hour \<le> to_hour then DURING_SCHEDULE
      else if citation_hour > to_hour \<and> citation_hour \<le> to_hour + 2 then AFTER_SCHEDULE
      else if citation_hour < from_hour \<and> citation_hour \<ge> from_hour - 1 then BEFORE_SCHEDULE
      else OUTSIDE_SCHEDULE)"

text \<open>A row of the matches table, with the columns the estimates read.\<close>

record schedule_match =
  sm_citation_id :: string
  sm_schedule_id :: int
  sm_distance_meters :: real
  sm_citation_hour :: int
  sm_schedule_from_hour :: int
  sm_schedule_to_hour :: int
  sm_time_relevance :: time_relevance
  sm_corridor :: string
  sm_limits :: string

text \<open>The match record that \<open>match_citation_to_schedules\<close> builds for a nearby schedule.\<close>

definition make_schedule_match ::
  "string \<Rightarrow> int \<Rightarrow> int \<Rightarrow> real \<Rightarrow> int \<Rightarrow> int \<Rightarrow> string \<Rightarrow> string \<Rightarrow> schedule_match" where
  "make_schedule_match cid citation_hour sid distance from_hour to_hour corr lims =
     \<lparr> sm_citation_id = cid, sm_schedule_id = sid, sm_distance_meters = distance,
       sm_citation_hour = citation_hour, sm_schedule_from_hour = from_hour,
       sm_schedule_to_hour = to_hour,
       sm_time_relevance = calculate_time_relevance citation_hour from_hour to_hour,
       sm_corridor = corr, sm_limits = lims \<rparr>"

record schedule_estimate =
  se_schedule_id :: int
  se_corridor :: string
  se_limits :: string
  se_schedule_from_hour :: int
  se_schedule_to_hour :: int
  se_total_citations :: nat
  se_citation_count :: nat
  se_min_citation_time :: int
  se_max_citation_time :: int
  se_avg_citation_time :: real
  se_median_citation_time :: real
  se_avg_distance_meters :: real

text \<open>\<open>np.min\<close>, \<open>np.max\<close>, \<open>np.mean\<close> and \<open>np.median\<close> of a non-empty list.\<close>

definition np_min :: "int list \<Rightarrow> int" where
  "np_min xs = fold min (tl xs) (hd xs)"

definition np_max :: "int list \<Rightarrow> int" where
  "np_max xs = fold max (tl xs) (hd xs)"

definition np_mean :: "real list \<Rightarrow> real" where
  "np_mean xs = sum_list xs / real (length xs)"

definition np_median :: "real list \<Rightarrow> real" where
  "np_median xs =
     (let s = sort xs; n = length xs
      in if odd n then s ! (n div 2) else (s ! (n div 2 - 1) + s ! (n div 2)) / 2)"

text \<open>
  The matches a schedule's statistics are computed from: those during the window when
  there are three of them, else those during the window or up to two hours after it.
\<close>

definition relevant_matches :: "schedule_match list \<Rightarrow> schedule_match list" where
  "relevant_matches grp =
     (let during_schedule_matches = filter (\<lambda>m. sm_time_relevance m = DURING_SCHEDULE) grp
      in if length during_schedule_matches \<ge> 3 then during_schedule_matches
         else filter (\<lambda>m. sm_time_relevance m \<in> {DURING_SCHEDULE, AFTER_SCHEDULE}) grp)"

definition schedule_stats :: "int \<Rightarrow> schedule_match list \<Rightarrow> schedule_match list \<Rightarrow> schedule_estimate" where
  "schedule_stats sid grp relevant =
     (let citation_hours = map sm_citation_hour relevant
      in \<lparr> se_schedule_id = sid,
           se_corridor = sm_corridor (hd grp),
           se_limits = sm_limits (hd grp),
           se_schedule_from_hour = sm_schedule_from_hour (hd grp),
           se_schedule_to_hour = sm_schedule_to_hour (hd grp),
           se_total_citations = length grp,
           se_citation_count = length relevant,
           se_min_citation_time = np_min citation_hours,
           se_max_citation_time = np_max citation_hours,
           se_avg_citation_time = np_mean (map real_of_int citation_hours),
           se_median_citation_time = np_median (map real_of_int citation_hours),
           se_avg_distance_meters = np_mean (map sm_distance_meters relevant) \<rparr>)"

text \<open>
  \<open>matches_df.groupby('schedule_id')\<close>: the schedule ids that occur, in ascending order,
  each with its matches in the order of the table.
\<close>

definition groupby_schedule_id :: "schedule_match list \<Rightarrow> (int \<times> schedule_match list) list" where
  "groupby_schedule_id matches_df =
     map (\<lambda>sid. (sid, filter (\<lambda>m. sm_schedule_id m = sid) matches_df))
         (sort (remdups (map sm_schedule_id matches_df)))"

text \<open>The loop of \<open>calculate_estimated_citation_times\<close>; \<open>continue\<close> skips a group.\<close>

fun estimate_groups :: "(int \<times> schedule_match list) list \<Rightarrow> schedule_estimate list" where
  "estimate_groups [] = []"
| "estimate_groups ((sid, grp) # rest) =
     (let relevant = relevant_matches grp
      in if length relevant < 3 then estimate_groups rest
         else schedule_stats sid grp relevant # estimate_groups rest)"

definition calculate_estimated_citation_times :: "schedule_match list \<Rightarrow> schedule_estimate list" where
  "calculate_estimated_citation_times matches_df = estimate_groups (groupby_schedule_id matches_df)"

section \<open>The schedule cleaners\<close>

subsection \<open>Rows\<close>

text \<open>
  A row of the raw schedule file. \<open>Line\<close> is \<open>None\<close> for a cell without geometry. The week
  and holiday columns are integers, 0 or 1 in the published data.
\<close>

record raw_row =
  BlockSweepID :: int
  CNN :: int
  Corridor :: string
  Limits :: string
  CNNRightLeft :: string
  BlockSide :: string
  WeekDay :: string
  FromHour :: int
  ToHour :: int
  Week1 :: int
  Week2 :: int
  Week3 :: int
  Week4 :: int
  Week5 :: int
  Holidays :: int
  Line :: "string option"

text \<open>The dictionary that \<open>_normalize_row\<close> returns.\<close>

record normalized_row =
  n_CNN :: int
  n_Corridor :: string
  n_Limits :: string
  n_CNNRightLeft :: string
  n_BlockSide :: string
  n_FromHour :: int
  n_ToHour :: int
  n_Line :: "string option"
  n_Monday :: int
  n_Tuesday :: int
  n_Wednesday :: int
  n_Thursday :: int
  n_Friday :: int
  n_Saturday :: int
  n_Sunday :: int
  n_Week1 :: int
  n_Week2 :: int
  n_Week3 :: int
  n_Week4 :: int
  n_Week5 :: int
  n_Holidays :: int

subsection \<open>Normalising a row\<close>

definition weekday_str :: "string \<Rightarrow> string" where
  "weekday_str w = (let u = py_upper w in if py_in ''HOLIDAY'' u then ''SUN/HOLIDAY'' else u)"

text \<open>The seven entries of \<open>day_mappings\<close>.\<close>

fun day_mapping :: "day \<Rightarrow> string \<Rightarrow> bool" where
  "day_mapping Monday w = py_in ''MON'' w"
| "day_mapping Tuesday w = (py_in ''TUES'' w \<or> py_in ''TUE'' w)"
| "day_mapping Wednesday w = py_in ''WED'' w"
| "day_mapping Thursday w = py_in ''THU'' w"
| "day_mapping Friday w = py_in ''FRI'' w"
| "day_mapping Saturday w = py_in ''SAT'' w"
| "day_mapping Sunday w = (py_in ''SUN'' w \<or> py_in ''HOLIDAY'' w)"

definition flag :: "bool \<Rightarrow> int" where
  "flag b = (if b then 1 else 0)"

text \<open>\<open>_normalize_row\<close> of \<open>clean_schedule_data_simple.py\<close>.\<close>

definition normalize_row_simple :: "raw_row \<Rightarrow> normalized_row" where
  "normalize_row_simple row =
     (let w = weekday_str (WeekDay row)
      in \<lparr> n_CNN = CNN row, n_Corridor = Corridor row, n_Limits = Limits row,
           n_CNNRightLeft = CNNRightLeft row, n_BlockSide = BlockSide row,
           n_FromHour = FromHour row, n_ToHour = ToHour row, n_Line = Line row,
           n_Monday = flag (day_mapping Monday w), n_Tuesday = flag (day_mapping Tuesday w),
           n_Wednesday = flag (day_mapping Wednesday w), n_Thursday = flag (day_mapping Thursday w),
           n_Friday = flag (day_mapping Friday w), n_Saturday = flag (day_mapping Saturday w),
           n_Sunday = flag (day_mapping Sunday w),
           n_Week1 = Week1 row, n_Week2 = Week2 row, n_Week3 = Week3 row,
           n_Week4 = Week4 row, n_Week5 = Week5 row, n_Holidays = Holidays row \<rparr>)"

text \<open>
  \<open>_normalize_row\<close> of \<open>clean_schedule_data_day_specific.py\<close>: the text columns are
  stripped, the week columns go through \<open>bool(int(...))\<close>, the geometry through \<open>str\<close>
  (which turns a missing cell into the text \<open>nan\<close>), and the holiday flag comes from the
  weekday text. The hours are integers already, which \<open>_parse_hour\<close> returns unchanged.
\<close>

definition normalize_row_day_specific :: "raw_row \<Rightarrow> normalized_row" where
  "normalize_row_day_specific row =
     (let w = weekday_str (WeekDay row)
      in \<lparr> n_CNN = CNN row, n_Corridor = py_strip (Corridor row), n_Limits = py_strip (Limits row),
           n_CNNRightLeft = py_strip (CNNRightLeft row), n_BlockSide = py_strip (BlockSide row),
           n_FromHour = FromHour row, n_ToHour = ToHour row,
           n_Line = Some (case Line row of None \<Rightarrow> ''nan'' | Some l \<Rightarrow> l),
           n_Monday = flag (day_mapping Monday w), n_Tuesday = flag (day_mapping Tuesday w),
           n_Wednesday = flag (day_mapping Wednesday w), n_Thursday = flag (day_mapping Thursday w),
           n_Friday = flag (day_mapping Friday w), n_Saturday = flag (day_mapping Saturday w),
           n_Sunday = flag (day_mapping Sunday w),
           n_Week1 = flag (Week1 row \<noteq> 0), n_Week2 = flag (Week2 row \<noteq> 0),
           n_Week3 = flag (Week3 row \<noteq> 0), n_Week4 = flag (Week4 row \<noteq> 0),
           n_Week5 = flag (Week5 row \<noteq> 0),
           n_Holidays = flag (py_in ''HOLIDAY'' w) \<rparr>)"

subsection \<open>Grouping by location\<close>

text \<open>The six \<open>location_columns\<close>.\<close>

type_synonym location = "string \<times> string \<times> string \<times> string \<times> int \<times> int"

definition location_columns :: "normalized_row \<Rightarrow> location" where
  "location_columns r =
     (n_Corridor r, n_Limits r, n_CNNRightLeft r, n_BlockSide r, n_FromHour r, n_ToHour r)"

text \<open>The aggregations \<open>max\<close> and \<open>first\<close> (the first value that is not missing) of a group.\<close>

definition agg_max :: "(normalized_row \<Rightarrow> int) \<Rightarrow> normalized_row list \<Rightarrow> int" where
  "agg_max col grp = fold max (map col (tl grp)) (col (hd grp))"

definition agg_first_line :: "normalized_row list \<Rightarrow> string option" where
  "agg_first_line grp = (case filter (\<lambda>l. l \<noteq> None) (map n_Line grp) of [] \<Rightarrow> None | l # _ \<Rightarrow> l)"

text \<open>One combined row for a group, which is never empty, together with the group's size.\<close>

definition combine_group :: "normalized_row list \<Rightarrow> normalized_row \<times> nat" where
  "combine_group grp =
     ((hd grp)\<lparr> n_CNN := n_CNN (hd grp), n_Line := agg_first_line grp,
        n_Monday := agg_max n_Monday grp, n_Tuesday := agg_max n_Tuesday grp,
        n_Wednesday := agg_max n_Wednesday grp, n_Thursday := agg_max n_Thursday grp,
        n_Friday := agg_max n_Friday grp, n_Saturday := agg_max n_Saturday grp,
        n_Sunday := agg_max n_Sunday grp,
        n_Week1 := agg_max n_Week1 grp, n_Week2 := agg_max n_Week2 grp,
        n_Week3 := agg_max n_Week3 grp, n_Week4 := agg_max n_Week4 grp,
        n_Week5 := agg_max n_Week5 grp, n_Holidays := agg_max n_Holidays grp \<rparr>,
      length grp)"

text \<open>
  \<open>normalized_df.groupby(location_columns).agg(agg_dict)\<close> with \<open>RecordCount\<close>: one combined
  row for each location that occurs, the locations in ascending order.
\<close>

definition combined_df :: "normalized_row list \<Rightarrow> (normalized_row \<times> nat) list" where
  "combined_df normalized_df =
     map (\<lambda>k. combine_group (filter (\<lambda>r. location_columns r = k) normalized_df))
         (sort (remdups (map location_columns normalized_df)))"

subsection \<open>The simple cleaner\<close>

record simple_clean_row =
  CleanBlockSweepID :: int
  combined :: normalized_row
  RecordCount :: nat

definition clean_schedule_data_simple :: "raw_row list \<Rightarrow> simple_clean_row list" where
  "clean_schedule_data_simple df =
     map (\<lambda>(i, (c, n)). \<lparr> CleanBlockSweepID = 2000000 + int i, combined = c, RecordCount = n \<rparr>)
         (enumerate 0 (combined_df (map normalize_row_simple df)))"

subsection \<open>The day-specific cleaner\<close>

definition day_columns :: "day list" where
  "day_columns = [Monday, Tuesday, Wednesday, Thursday, Friday, Saturday, Sunday]"

fun day_flag :: "day \<Rightarrow> normalized_row \<Rightarrow> int" where
  "day_flag Monday = n_Monday"
| "day_flag Tuesday = n_Tuesday"
| "day_flag Wednesday = n_Wednesday"
| "day_flag Thursday = n_Thursday"
| "day_flag Friday = n_Friday"
| "day_flag Saturday = n_Saturday"
| "day_flag Sunday = n_Sunday"

text \<open>
  The row written for one active day of a combined schedule (the identifier is set
  afterwards; the columns \<open>full_name\<close>, \<open>holidays\<close> and \<open>record_count\<close>, which neither the
  matcher nor the aggregator reads, are left out).
\<close>

definition day_row :: "normalized_row \<Rightarrow> day \<Rightarrow> schedule_row" where
  "day_row schedule d =
     \<lparr> schedule_id = 0, cnn = n_CNN schedule, corridor = n_Corridor schedule,
       limits = n_Limits schedule, cnn_right_left = n_CNNRightLeft schedule,
       block_side = n_BlockSide schedule, weekday = day_name d,
       scheduled_from_hour = n_FromHour schedule, scheduled_to_hour = n_ToHour schedule,
       week1 = (n_Week1 schedule = 1), week2 = (n_Week2 schedule = 1),
       week3 = (n_Week3 schedule = 1), week4 = (n_Week4 schedule = 1),
       week5 = (n_Week5 schedule = 1),
       line = (case n_Line schedule of None \<Rightarrow> [] | Some l \<Rightarrow> l) \<rparr>"

definition day_specific_rows :: "(normalized_row \<times> nat) list \<Rightarrow> schedule_row list" where
  "day_specific_rows combined_rows =
     concat (map (\<lambda>(schedule, n).
                    map (day_row schedule) (filter (\<lambda>d. day_flag d schedule = 1) day_columns))
                 combined_rows)"

definition clean_schedule_data_day_specific :: "raw_row list \<Rightarrow> schedule_row list" where
  "clean_schedule_data_day_specific df =
     map (\<lambda>(i, r). r\<lparr> schedule_id := 2000000 + int i \<rparr>)
         (enumerate 0 (day_specific_rows (combined_df (map normalize_row_day_specific df))))"

text \<open>The location of a cleaned row, for comparison with that of the raw rows.\<close>

definition row_location :: "schedule_row \<Rightarrow> location" where
  "row_location s =
     (corridor s, limits s, cnn_right_left s, block_side s, scheduled_from_hour s, scheduled_to_hour s)"

subsection \<open>Concrete rows\<close>

text \<open>
  A raw row of Mission St, odd side, Tuesday 8 to 10, with the week pattern left open.
\<close>

definition mission_raw :: "int \<Rightarrow> int \<Rightarrow> int \<Rightarrow> int \<Rightarrow> int \<Rightarrow> int \<Rightarrow> raw_row" where
  "mission_raw bid w1 w2 w3 w4 w5 =
     \<lparr> BlockSweepID = bid, CNN = 9102000, Corridor = ''Mission St'', Limits = ''20th St  -  21st St'',
       CNNRightLeft = ''R'', BlockSide = ''Odd'', WeekDay = ''Tues'', FromHour = 8, ToHour = 10,
       Week1 = w1, Week2 = w2, Week3 = w3, Week4 = w4, Week5 = w5, Holidays = 0,
       Line = Some ''{'type': 'LineString', 'coordinates': [[-122.420, 37.760], [-122.419, 37.761]]}'' \<rparr>"

section \<open>Facts about the string operations\<close>

lemma of_char_py_upper_char:
  "(of_char (py_upper_char c) :: nat) =
     (if 97 \<le> (of_char c :: nat) \<and> (of_char c :: nat) \<le> 122 then of_char c - 32 else of_char c)"
  by (auto simp: py_upper_char_def Let_def)

lemma py_upper_char_idem: "py_upper_char (py_upper_char c) = py_upper_char c"
proof -
  have "\<not> (97 \<le> (of_char (py_upper_char c) :: nat) \<and> (of_char (py_upper_char c) :: nat) \<le> 122)"
    unfolding of_char_py_upper_char by (simp split: if_splits) arith
  then show ?thesis by (auto simp: py_upper_char_def[of "py_upper_char c"] Let_def)
qed

lemma py_upper_idem: "py_upper (py_upper s) = py_upper s"
  by (simp add: py_upper_def py_upper_char_idem)

lemma py_isspace_upper: "py_isspace (py_upper_char c) = py_isspace c"
  unfolding py_isspace_def Let_def of_char_py_upper_char by (simp split: if_splits) arith

lemma py_upper_char_neq_d: "py_upper_char c \<noteq> CHR ''d''"
proof
  assume "py_upper_char c = CHR ''d''"
  then have "(of_char (py_upper_char c) :: nat) = of_char (CHR ''d'')" by simp
  then show False by (simp add: of_char_py_upper_char split: if_splits)
qed

lemma py_upper_char_space: "py_upper_char c = CHR '' '' \<longleftrightarrow> c = CHR '' ''"
proof
  assume "py_upper_char c = CHR '' ''"
  then have "(of_char (py_upper_char c) :: nat) = of_char (CHR '' '')" by simp
  then have "(of_char c :: nat) = of_char (CHR '' '')" by (simp add: of_char_py_upper_char split: if_splits)
  then show "c = CHR '' ''" by (metis of_char_eq_iff)
next
  assume "c = CHR '' ''" then show "py_upper_char c = CHR '' ''" by (simp add: py_upper_char_def)
qed

lemma py_rstrip_prefix: "\<exists>zs. s = py_rstrip s @ zs"
proof -
  have "rev (takeWhile py_isspace (rev s) @ dropWhile py_isspace (rev s)) = s"
    by (simp only: takeWhile_dropWhile_id rev_rev_ident)
  then have "s = py_rstrip s @ rev (takeWhile py_isspace (rev s))"
    by (simp only: rev_append py_rstrip_def)
  then show ?thesis by blast
qed

lemma py_strip_stripped: "stripped (py_strip s)"
proof (cases "py_strip s = []")
  case True then show ?thesis by (simp add: stripped_def)
next
  case False
  let ?t = "py_lstrip s"
  let ?u = "py_rstrip ?t"
  have u: "py_strip s = ?u" by (simp add: py_strip_def)
  from False u have une: "?u \<noteq> []" by simp
  obtain zs where t: "?t = ?u @ zs" using py_rstrip_prefix by blast
  with une have tne: "?t \<noteq> []" by auto
  have "\<not> py_isspace (hd ?t)" using tne unfolding py_lstrip_def by (metis hd_dropWhile)
  moreover have "hd ?t = hd ?u" using t une by (metis hd_append2)
  moreover have "\<not> py_isspace (last ?u)"
  proof -
    have ne: "dropWhile py_isspace (rev ?t) \<noteq> []" using une by (simp add: py_rstrip_def)
    have "last ?u = hd (dropWhile py_isspace (rev ?t))"
      using ne by (simp add: py_rstrip_def last_rev)
    then show ?thesis using ne by (metis hd_dropWhile)
  qed
  ultimately show ?thesis using u by (simp add: stripped_def)
qed

lemma py_strip_id: "stripped s \<Longrightarrow> py_strip s = s"
proof (cases "s = []")
  case True then show ?thesis by (simp add: py_strip_def py_lstrip_def py_rstrip_def)
next
  case False
  assume "stripped s"
  with False have h: "\<not> py_isspace (hd s)" and l: "\<not> py_isspace (last s)" by (auto simp: stripped_def)
  from False h have 1: "py_lstrip s = s" by (cases s) (auto simp: py_lstrip_def)
  from False l have "dropWhile py_isspace (rev s) = rev s"
    by (cases "rev s") (auto simp: last_rev hd_rev)
  then have 2: "py_rstrip s = s" by (simp add: py_rstrip_def)
  show ?thesis by (simp add: py_strip_def 1 2)
qed

lemma length_py_strip: "length (py_strip s) \<le> length s"
proof -
  have "length (py_rstrip (py_lstrip s)) \<le> length (py_lstrip s)"
    unfolding py_rstrip_def by (simp add: length_dropWhile_le order_trans[OF length_dropWhile_le])
  also have "\<dots> \<le> length s" by (simp add: py_lstrip_def length_dropWhile_le)
  finally show ?thesis by (simp add: py_strip_def)
qed

lemma remove_prefix_stripped: "stripped s \<Longrightarrow> stripped (remove_prefix ps s)"
  by (induction ps) (auto simp: py_strip_stripped)

lemma remove_directional_stripped: "stripped s \<Longrightarrow> stripped (remove_directional ds s)"
  by (induction ds) (auto simp: py_strip_stripped)

lemma remove_street_type_stripped: "stripped s \<Longrightarrow> stripped (remove_street_type ts s)"
  by (induction ts) (auto simp: py_strip_stripped)

lemma extract_stripped: "stripped (extract_street_from_address x)"
proof (cases "x = []")
  case True then show ?thesis by (simp add: extract_street_from_address_def stripped_def)
next
  case False
  then show ?thesis
    unfolding extract_street_from_address_def Let_def
    by (simp add: remove_street_type_stripped remove_directional_stripped remove_prefix_stripped
        py_strip_stripped)
qed

section \<open>Facts about street tokens\<close>

lemma startswith_set: "startswith s p \<Longrightarrow> c \<in> set p \<Longrightarrow> c \<in> set s"
  unfolding startswith_def by (metis in_set_takeD)

lemma endswith_set: "endswith s p \<Longrightarrow> c \<in> set p \<Longrightarrow> c \<in> set s"
  unfolding endswith_def by (metis in_set_dropD)

lemma remove_prefix_nospace:
  "CHR '' '' \<notin> set s \<Longrightarrow> \<forall>p\<in>set ps. CHR '' '' \<in> set p \<Longrightarrow> remove_prefix ps s = s"
  by (induction ps) (auto dest: startswith_set)

lemma remove_directional_nospace:
  "CHR '' '' \<notin> set s \<Longrightarrow> remove_directional ds s = s"
proof (induction ds)
  case Nil then show ?case by simp
next
  case (Cons d ds)
  have "\<not> endswith s (CHR '' '' # d)" using Cons.prems endswith_set[of s "CHR '' '' # d" "CHR '' ''"] by auto
  moreover have "\<not> startswith s (d @ '' '')" using Cons.prems startswith_set[of s "d @ '' ''" "CHR '' ''"] by auto
  ultimately show ?case using Cons by simp
qed

lemma remove_street_type_nospace:
  "CHR '' '' \<notin> set s \<Longrightarrow>
   remove_street_type ts s =
     (case find (proper_type_suffix s) ts of
        None \<Rightarrow> s
      | Some t \<Rightarrow> py_strip (drop_last (length t) s))"
proof (induction ts)
  case Nil then show ?case by simp
next
  case (Cons t ts)
  have "\<not> endswith s (CHR '' '' # t)" using Cons.prems endswith_set[of s "CHR '' '' # t" "CHR '' ''"] by auto
  then show ?case using Cons by (simp add: proper_type_suffix_def)
qed

lemma re_match_number_prefix_no_d:
  "CHR ''d'' \<notin> set s \<Longrightarrow> re_match_number_prefix s = None"
proof (cases s)
  case Nil then show ?thesis by (simp add: re_match_number_prefix_def)
next
  case (Cons c1 r1)
  assume "CHR ''d'' \<notin> set s"
  with Cons have "takeWhile (\<lambda>c. c = CHR ''d'') r1 = []"
    by (cases r1) auto
  with Cons show ?thesis by (simp add: re_match_number_prefix_def Let_def)
qed

text \<open>What every token has: upper case, no blank, nothing to strip.\<close>

lemma token_no_space: "CHR '' '' \<notin> set (normalize_token x)"
  by (simp add: normalize_token_def normalize_street_name_def)

lemma token_upper: "py_upper (normalize_token x) = normalize_token x"
proof -
  have "\<forall>c \<in> set (normalize_token x). py_upper_char c = c"
    by (auto simp: normalize_token_def normalize_street_name_def py_upper_def py_upper_char_idem)
  then show ?thesis unfolding py_upper_def by (simp add: map_idI)
qed

lemma token_no_d: "CHR ''d'' \<notin> set (normalize_token x)"
proof
  assume "CHR ''d'' \<in> set (normalize_token x)"
  then obtain c where "py_upper_char c = CHR ''d''"
    by (auto simp: normalize_token_def normalize_street_name_def py_upper_def split: if_splits)
  then show False by (simp add: py_upper_char_neq_d)
qed

lemma token_stripped: "stripped (normalize_token x)"
proof (cases "extract_street_from_address x = []")
  case True then show ?thesis by (simp add: normalize_token_def normalize_street_name_def stripped_def)
next
  case False
  let ?e = "extract_street_from_address x"
  let ?P = "\<lambda>c. c \<noteq> CHR '' ''"
  from extract_stripped[of x] False
  have h: "\<not> py_isspace (hd ?e)" and l: "\<not> py_isspace (last ?e)" by (auto simp: stripped_def)
  have sp: "py_isspace (CHR '' '')" by (simp add: py_isspace_def)
  obtain a r where e1: "?e = a # r" using False by (cases ?e) auto
  obtain r' b where e2: "?e = r' @ [b]" using False by (metis rev_exhaust)
  have a: "\<not> py_isspace (py_upper_char a)" using h e1 by (simp add: py_isspace_upper)
  have b: "\<not> py_isspace (py_upper_char b)" using l e2 by (simp add: py_isspace_upper)
  have a': "py_upper_char a \<noteq> CHR '' ''" using a sp by auto
  have b': "py_upper_char b \<noteq> CHR '' ''" using b sp by auto
  have t1: "normalize_token x = py_upper_char a # filter ?P (py_upper r)"
    using False a' by (simp add: normalize_token_def normalize_street_name_def py_upper_def e1)
  have t2: "normalize_token x = filter ?P (py_upper r') @ [py_upper_char b]"
    using False b' by (simp add: normalize_token_def normalize_street_name_def py_upper_def e2)
  have "hd (normalize_token x) = py_upper_char a" by (simp add: t1)
  moreover have "last (normalize_token x) = py_upper_char b" by (simp add: t2)
  ultimately show ?thesis using a b by (simp add: stripped_def)
qed

lemma street_type_has_space: "\<forall>p\<in>set prefixes. CHR '' '' \<in> set p"
  by (simp add: prefixes_def)

lemma extract_of_token:
  "extract_street_from_address (normalize_token x) =
     (case find (proper_type_suffix (normalize_token x)) street_types of
        None \<Rightarrow> normalize_token x
      | Some t \<Rightarrow> py_strip (drop_last (length t) (normalize_token x)))"
proof (cases "normalize_token x = []")
  case True
  then show ?thesis
    by (simp add: extract_street_from_address_def proper_type_suffix_def street_types_def)
next
  case False
  let ?s = "normalize_token x"
  have 1: "py_strip ?s = ?s" by (rule py_strip_id[OF token_stripped])
  have 2: "re_match_number_prefix ?s = None" by (rule re_match_number_prefix_no_d[OF token_no_d])
  have 3: "py_upper ?s = ?s" by (rule token_upper)
  have 4: "remove_prefix prefixes ?s = ?s"
    by (rule remove_prefix_nospace[OF token_no_space street_type_has_space])
  have 5: "remove_directional directional_suffixes ?s = ?s"
    by (rule remove_directional_nospace[OF token_no_space])
  show ?thesis
    using False
    by (simp add: extract_street_from_address_def Let_def 1 2 3 4 5
        remove_street_type_nospace[OF token_no_space])
qed

lemma normalize_street_name_token: "normalize_street_name (normalize_token x) = normalize_token x"
proof -
  have "filter (\<lambda>c. c \<noteq> CHR '' '') (normalize_token x) = normalize_token x"
    using token_no_space[of x] by (auto simp: filter_id_conv)
  then show ?thesis by (simp add: normalize_street_name_def token_upper)
qed

lemma length_normalize_street_name: "length (normalize_street_name s) \<le> length s"
  by (simp add: normalize_street_name_def py_upper_def order_trans[OF length_filter_le])

lemma find_proper_type_nonempty:
  "find (proper_type_suffix s) street_types = Some t \<Longrightarrow> 0 < length t \<and> length t < length s"
proof -
  assume f: "find (proper_type_suffix s) street_types = Some t"
  then have "t \<in> set street_types" and p: "proper_type_suffix s t"
    by (metis find_Some_iff nth_mem)+
  then have "t \<noteq> []" by (auto simp: street_types_def)
  with p show ?thesis by (simp add: proper_type_suffix_def)
qed

section \<open>Facts about the matcher\<close>

lemma mission_rule_fields:
  "weekday mission_rule = ''Tuesday''" "scheduled_from_hour mission_rule = 8"
  "scheduled_to_hour mission_rule = 10"
  "parsed_coords mission_rule = Some [(37.760, -122.420), (37.761, -122.419)]"
  "normalized_corridor mission_rule = ''MISSION''"
  "schedule_id mission_rule = 2000000"
  by (simp_all add: mission_rule_def mission_row_def schedule_row.extend_def)

lemma min_distance_loop_Some:
  "min_distance_loop g p cs (Some m) = Some (Min (insert m (g p ` set cs)))"
proof (induction cs arbitrary: m)
  case Nil then show ?case by simp
next
  case (Cons c cs)
  have "Min (insert (min m (g p c)) (g p ` set cs)) = Min (insert m (insert (g p c) (g p ` set cs)))"
    by (cases "set cs = {}") (simp_all add: min.assoc)
  then show ?case by (simp add: Cons.IH)
qed

lemma calculate_distance_to_schedule_Min:
  "calculate_distance_to_schedule g lat lon coords =
     (if coords = [] then None else Some (Min (g (lat, lon) ` set coords)))"
  by (cases coords) (simp_all add: calculate_distance_to_schedule_def min_distance_loop_Some)

lemma build_grid_mem:
  "build_grid fa cfg g0 xs = Some g \<Longrightarrow>
     idx \<in> set (g cell) \<longleftrightarrow>
       idx \<in> set (g0 cell) \<or> (\<exists>row. (idx, row) \<in> set xs \<and> first_vertex_cell fa cfg row = Some cell)"
proof (induction xs arbitrary: g0)
  case Nil then show ?case by simp
next
  case (Cons x xs)
  obtain i row where x: "x = (i, row)" by (cases x)
  show ?case
  proof (cases "\<exists>lat lon rest. parsed_coords row = Some ((lat, lon) # rest)")
    case False
    then have skip: "build_grid fa cfg g0 (x # xs) = build_grid fa cfg g0 xs"
      and none: "first_vertex_cell fa cfg row = None"
      by (auto simp: x first_vertex_cell_def split: option.splits list.splits)
    from Cons.prems skip have "build_grid fa cfg g0 xs = Some g" by simp
    from Cons.IH[OF this] none show ?thesis by (auto simp: x)
  next
    case True
    then obtain lat lon rest where pc: "parsed_coords row = Some ((lat, lon) # rest)" by blast
    then have fv: "first_vertex_cell fa cfg row = lat_lon_to_grid fa cfg lat lon"
      by (simp add: first_vertex_cell_def)
    from Cons.prems pc obtain c where c: "lat_lon_to_grid fa cfg lat lon = Some c"
      and step: "build_grid fa cfg (g0(c := g0 c @ [i])) xs = Some g"
      by (auto simp: x split: option.splits)
    have ih: "idx \<in> set (g cell) \<longleftrightarrow>
                idx \<in> set ((g0(c := g0 c @ [i])) cell)
                \<or> (\<exists>row. (idx, row) \<in> set xs \<and> first_vertex_cell fa cfg row = Some cell)"
      by (rule Cons.IH[OF step])
    have upd: "idx \<in> set ((g0(c := g0 c @ [i])) cell) \<longleftrightarrow>
                idx \<in> set (g0 cell) \<or> (idx = i \<and> cell = c)"
      by auto
    have new: "(\<exists>r. (idx, r) \<in> set (x # xs) \<and> first_vertex_cell fa cfg r = Some cell) \<longleftrightarrow>
                 (idx = i \<and> cell = c) \<or> (\<exists>r. (idx, r) \<in> set xs \<and> first_vertex_cell fa cfg r = Some cell)"
      using fv c by (auto simp: x)
    show ?thesis unfolding ih upd new by blast
  qed
qed

lemma build_grid_total:
  "grid_size_meters cfg \<noteq> 0 \<Longrightarrow> build_grid fa cfg g0 xs \<noteq> None"
proof (induction xs arbitrary: g0)
  case Nil then show ?case by simp
next
  case (Cons x xs)
  obtain i row where x: "x = (i, row)" by (cases x)
  show ?case
  proof (cases "\<exists>lat lon rest. parsed_coords row = Some ((lat, lon) # rest)")
    case False
    then have "build_grid fa cfg g0 (x # xs) = build_grid fa cfg g0 xs"
      by (auto simp: x split: option.splits list.splits)
    with Cons.IH[OF Cons.prems] show ?thesis by simp
  next
    case True
    then obtain lat lon rest where pc: "parsed_coords row = Some ((lat, lon) # rest)" by blast
    from Cons.prems obtain c where c: "lat_lon_to_grid fa cfg lat lon = Some c"
      by (simp add: lat_lon_to_grid_def Let_def)
    have "build_grid fa cfg g0 (x # xs) = build_grid fa cfg (g0(c := g0 c @ [i])) xs"
      by (simp add: x pc c)
    with Cons.IH[OF Cons.prems] show ?thesis by simp
  qed
qed

lemma in_block_iff:
  "in_block r (gx, gy) cell \<longleftrightarrow> (\<exists>dx\<in>set [- r..r]. \<exists>dy\<in>set [- r..r]. cell = (gx + dx, gy + dy))"
proof
  assume "in_block r (gx, gy) cell"
  then have "fst cell - gx \<in> set [- r..r]" "snd cell - gy \<in> set [- r..r]"
    "cell = (gx + (fst cell - gx), gy + (snd cell - gy))"
    by (auto simp: in_block_def)
  then show "\<exists>dx\<in>set [- r..r]. \<exists>dy\<in>set [- r..r]. cell = (gx + dx, gy + dy)" by blast
next
  assume "\<exists>dx\<in>set [- r..r]. \<exists>dy\<in>set [- r..r]. cell = (gx + dx, gy + dy)"
  then show "in_block r (gx, gy) cell" by (auto simp: in_block_def)
qed

lemma spatial_candidates_mem:
  assumes "spatial_candidates fa cfg grid lat lon = Some cands"
  shows "\<exists>qcell. lat_lon_to_grid fa cfg lat lon = Some qcell
           \<and> (\<forall>idx. idx \<in> set cands \<longleftrightarrow>
                  (\<exists>cell. in_block (grid_search_radius cfg) qcell cell \<and> idx \<in> set (grid cell)))"
proof -
  from assms obtain gx gy where g: "lat_lon_to_grid fa cfg lat lon = Some (gx, gy)"
    by (auto simp: spatial_candidates_def split: option.splits)
  with assms have cands: "cands = remdups (concat (map (\<lambda>dx. concat (map (\<lambda>dy. grid (gx + dx, gy + dy))
        [- grid_search_radius cfg..grid_search_radius cfg])) [- grid_search_radius cfg..grid_search_radius cfg]))"
    by (simp add: spatial_candidates_def Let_def)
  have "\<forall>idx. idx \<in> set cands \<longleftrightarrow>
          (\<exists>cell. in_block (grid_search_radius cfg) (gx, gy) cell \<and> idx \<in> set (grid cell))"
    unfolding cands in_block_iff by auto
  with g show ?thesis by blast
qed

lemma candidates_iff:
  assumes b: "build_hybrid_index fa cfg parse schedule_df = Some (schedules, grid)"
    and s: "spatial_candidates fa cfg grid lat lon = Some cands"
  shows "\<exists>qcell. lat_lon_to_grid fa cfg lat lon = Some qcell
           \<and> (\<forall>idx. idx \<in> set cands \<longleftrightarrow>
                  idx < length schedules
                  \<and> (\<exists>cell. first_vertex_cell fa cfg (schedules ! idx) = Some cell
                            \<and> in_block (grid_search_radius cfg) qcell cell))"
proof -
  from b have grid: "build_grid fa cfg (\<lambda>_. []) (enumerate 0 schedules) = Some grid"
    by (auto simp: build_hybrid_index_def Let_def split: option.splits)
  from spatial_candidates_mem[OF s] obtain qcell where q: "lat_lon_to_grid fa cfg lat lon = Some qcell"
    and m: "\<forall>idx. idx \<in> set cands \<longleftrightarrow>
                  (\<exists>cell. in_block (grid_search_radius cfg) qcell cell \<and> idx \<in> set (grid cell))"
    by blast
  have "idx \<in> set cands \<longleftrightarrow>
                  idx < length schedules
                  \<and> (\<exists>cell. first_vertex_cell fa cfg (schedules ! idx) = Some cell
                            \<and> in_block (grid_search_radius cfg) qcell cell)" for idx
  proof -
    have "idx \<in> set cands \<longleftrightarrow>
            (\<exists>cell. in_block (grid_search_radius cfg) qcell cell \<and> idx \<in> set (grid cell))"
      using m by blast
    also have "\<dots> \<longleftrightarrow> (\<exists>cell. in_block (grid_search_radius cfg) qcell cell
                        \<and> (\<exists>row. (idx, row) \<in> set (enumerate 0 schedules)
                                 \<and> first_vertex_cell fa cfg row = Some cell))"
      unfolding build_grid_mem[OF grid] by simp
    also have "\<dots> \<longleftrightarrow> idx < length schedules
                  \<and> (\<exists>cell. first_vertex_cell fa cfg (schedules ! idx) = Some cell
                            \<and> in_block (grid_search_radius cfg) qcell cell)"
      by (auto simp: in_set_enumerate_eq)
    finally show ?thesis .
  qed
  with q show ?thesis by blast
qed

lemma distance_matches_mem:
  "m \<in> set (distance_matches cfg geodesic schedules c cands) \<longleftrightarrow>
     (\<exists>idx\<in>set cands. \<exists>d. schedule_distance geodesic c (schedules ! idx) = Some d
                           \<and> d \<le> max_distance_meters cfg
                           \<and> m = make_match c (schedules ! idx) d)"
  by (induction cands) (auto split: option.splits)

lemma match_candidates_no_street:
  "match_candidates cfg geodesic schedules c [] spatial =
      (let day_time = day_and_time_candidates schedules c spatial
       in if day_time = [] then []
          else sort_key m_distance_meters (distance_matches cfg geodesic schedules c day_time))"
  by (auto simp: match_candidates_def street_candidates_def Let_def day_and_time_candidates_def)

text \<open>
  The cells of the three coordinates used below do not depend on the rounding: any pair of
  operations within a relative error of one part in \<open>10^9\<close> of the exact ones, as those
  of the doubles are, puts them in the same cells as exact arithmetic does.
\<close>

lemma fl_mul_near:
  assumes "rounds_within e fa" "0 \<le> e" "\<bar>a * b\<bar> \<le> M"
  shows "\<bar>fl_mul fa a b - a * b\<bar> \<le> e * M"
proof -
  from assms(1) have "\<bar>fl_mul fa a b - a * b\<bar> \<le> e * \<bar>a * b\<bar>"
    by (simp add: rounds_within_def)
  also have "\<dots> \<le> e * M" using assms(2,3) by (rule mult_left_mono[rotated])
  finally show ?thesis .
qed

lemma fl_div_near:
  assumes "rounds_within e fa" "0 \<le> e" "b \<noteq> 0" "\<bar>a / b\<bar> \<le> M"
  shows "\<bar>fl_div fa a b - a / b\<bar> \<le> e * M"
proof -
  from assms(1,3) have "\<bar>fl_div fa a b - a / b\<bar> \<le> e * \<bar>a / b\<bar>"
    by (simp add: rounds_within_def)
  also have "\<dots> \<le> e * M" using assms(2,4) by (rule mult_left_mono[rotated])
  finally show ?thesis .
qed

lemma lat_cell_under_rounding:
  assumes rw: "rounds_within (1 / 10^9) fa"
    and range: "\<bar>lat * 111000\<bar> \<le> 10^7"
    and lo: "real_of_int n + 1 / 10 \<le> lat * 111000 / 100"
    and hi: "lat * 111000 / 100 \<le> real_of_int n + 9 / 10"
    and n: "0 \<le> n"
  shows "py_int (fl_div fa (fl_mul fa lat 111000) 100) = n"
proof -
  define L where "L = lat * 111000"
  define p where "p = fl_mul fa lat 111000"
  define q where "q = fl_div fa p 100"
  have e: "(0::real) \<le> 1 / 10^9" by simp
  have "\<bar>p - lat * 111000\<bar> \<le> 1 / 10^9 * 10^7"
    unfolding p_def by (rule fl_mul_near[OF rw e range])
  then have p: "\<bar>p - L\<bar> \<le> 1 / 100" unfolding L_def by simp
  have r: "\<bar>L\<bar> \<le> 10000000" using range unfolding L_def by simp
  have "\<bar>p\<bar> \<le> 100000000" using p r by linarith
  then have pb: "\<bar>p / 100\<bar> \<le> 10^6" by simp
  have "\<bar>q - p / 100\<bar> \<le> 1 / 10^9 * 10^6"
    unfolding q_def by (rule fl_div_near[OF rw e _ pb]) simp
  then have q: "\<bar>q - p / 100\<bar> \<le> 1 / 1000" by simp
  have lo': "real_of_int n + 1 / 10 \<le> L / 100" and hi': "L / 100 \<le> real_of_int n + 9 / 10"
    using lo hi unfolding L_def by simp_all
  have 1: "real_of_int n \<le> q" using p q lo' by linarith
  have 2: "q < real_of_int n + 1" using p q hi' by linarith
  from 1 2 have "\<lfloor>q\<rfloor> = n" by linarith
  moreover have "0 \<le> q" using 1 n by linarith
  ultimately have "py_int q = n" by (simp add: py_int_def)
  then show ?thesis unfolding q_def p_def .
qed

lemma lon_cell_under_rounding:
  assumes rw: "rounds_within (1 / 10^9) fa"
    and range: "\<bar>lon * 111000\<bar> \<le> 10^7 + 5 * 10^6"
    and lo: "real_of_int n - 9 / 10 \<le> lon * 111000 * 0.794 / 100"
    and hi: "lon * 111000 * 0.794 / 100 \<le> real_of_int n - 1 / 10"
    and n: "n \<le> 0"
  shows "py_int (fl_div fa (fl_mul fa (fl_mul fa lon 111000) 0.794) 100) = n"
proof -
  define L where "L = lon * 111000"
  define p1 where "p1 = fl_mul fa lon 111000"
  define p2 where "p2 = fl_mul fa p1 0.794"
  define q where "q = fl_div fa p2 100"
  have e: "(0::real) \<le> 1 / 10^9" by simp
  have "\<bar>p1 - lon * 111000\<bar> \<le> 1 / 10^9 * (10^7 + 5 * 10^6)"
    unfolding p1_def by (rule fl_mul_near[OF rw e range])
  then have p1: "\<bar>p1 - L\<bar> \<le> 2 / 100" unfolding L_def by simp
  have r: "\<bar>L\<bar> \<le> 15000000" using range unfolding L_def by simp
  have "\<bar>p1\<bar> \<le> 15000001" using p1 r by linarith
  then have "\<bar>p1\<bar> * 0.794 \<le> 15000000" by simp
  then have p1b: "\<bar>p1 * 0.794\<bar> \<le> 10^7 + 5 * 10^6" by (simp add: abs_mult)
  have "\<bar>p2 - p1 * 0.794\<bar> \<le> 1 / 10^9 * (10^7 + 5 * 10^6)"
    unfolding p2_def by (rule fl_mul_near[OF rw e p1b])
  then have p2: "\<bar>p2 - p1 * 0.794\<bar> \<le> 2 / 100" by simp
  have p2': "\<bar>p2 - p1 * (794 / 1000)\<bar> \<le> 2 / 100" using p2 by simp
  have p2c: "\<bar>p2 - L * (794 / 1000)\<bar> \<le> 4 / 100" using p1 p2' by linarith
  have "\<bar>p2\<bar> \<le> 100000000" using p2c r by linarith
  then have p2b: "\<bar>p2 / 100\<bar> \<le> 10^6" by simp
  have "\<bar>q - p2 / 100\<bar> \<le> 1 / 10^9 * 10^6"
    unfolding q_def by (rule fl_div_near[OF rw e _ p2b]) simp
  then have q: "\<bar>q - p2 / 100\<bar> \<le> 1 / 1000" by simp
  have lo': "real_of_int n - 9 / 10 \<le> L * (794 / 1000) / 100"
    and hi': "L * (794 / 1000) / 100 \<le> real_of_int n - 1 / 10"
    using lo hi unfolding L_def by simp_all
  have 1: "real_of_int n - 1 < q" using p2c q lo' by linarith
  have 2: "q \<le> real_of_int n" using p2c q hi' by linarith
  from 1 2 have "\<lceil>q\<rceil> = n" by linarith
  moreover have "q < 0" using p2c q hi' n by linarith
  ultimately have "py_int q = n" by (simp add: py_int_def)
  then show ?thesis unfolding q_def p2_def p1_def .
qed

lemma cells_under_rounding:
  assumes rw: "rounds_within (1 / 10^9) fa"
  shows "lat_lon_to_grid fa one_cell_config 37.770 (-122.420) = Some (41924, -107893)"
    and "lat_lon_to_grid fa one_cell_config 37.760 (-122.420) = Some (41913, -107893)"
proof -
  have x1: "py_int (fl_div fa (fl_mul fa 37.770 111000) 100) = 41924"
    by (rule lat_cell_under_rounding[OF rw]) simp_all
  have x2: "py_int (fl_div fa (fl_mul fa 37.760 111000) 100) = 41913"
    by (rule lat_cell_under_rounding[OF rw]) simp_all
  have y: "py_int (fl_div fa (fl_mul fa (fl_mul fa (-122.420) 111000) 0.794) 100) = -107893"
    by (rule lon_cell_under_rounding[OF rw]) simp_all
  show "lat_lon_to_grid fa one_cell_config 37.770 (-122.420) = Some (41924, -107893)"
    unfolding lat_lon_to_grid_def Let_def using x1 y by (simp add: one_cell_config_def)
  show "lat_lon_to_grid fa one_cell_config 37.760 (-122.420) = Some (41913, -107893)"
    unfolding lat_lon_to_grid_def Let_def using x2 y by (simp add: one_cell_config_def)
qed

lemma later_vertex_missed_under_rounding:
  assumes rw: "rounds_within (1 / 10^9) fa"
  shows "build_grid fa one_cell_config (\<lambda>_. []) (enumerate 0 [long_rule_reversed])
           = Some ((\<lambda>_. [])((41924, -107893) := [0]))
         \<and> spatial_candidates fa one_cell_config ((\<lambda>_. [])((41924, -107893) := [0]))
              37.760 (-122.420) = Some []"
proof -
  have pc: "parsed_coords long_rule_reversed = Some [(37.770, -122.420), (37.760, -122.420)]"
    by (simp add: long_rule_reversed_def)
  have 1: "build_grid fa one_cell_config (\<lambda>_. []) (enumerate 0 [long_rule_reversed])
           = Some ((\<lambda>_. [])((41924, -107893) := [0]))"
    unfolding enumerate_simps build_grid.simps pc
    by (simp only: cells_under_rounding(1)[OF rw] option.case list.case prod.case append_Nil)
  have 2: "spatial_candidates fa one_cell_config ((\<lambda>_. [])((41924, -107893) := [0]))
              37.760 (-122.420) = Some []"
    unfolding spatial_candidates_def cells_under_rounding(2)[OF rw]
    by (simp add: one_cell_config_def upto.simps)
  show ?thesis using 1 2 by blast
qed

lemma exact_arith_rounds_within: "0 \<le> e \<Longrightarrow> rounds_within e exact_arith"
  by (simp add: rounds_within_def exact_arith_def)

section \<open>Facts about the archived estimates\<close>

lemma estimate_groups_ids:
  "map se_schedule_id (estimate_groups gs) =
     map fst (filter (\<lambda>(sid, grp). 3 \<le> length (relevant_matches grp)) gs)"
  by (induction gs) (auto simp: Let_def schedule_stats_def)

lemma estimate_groups_mem:
  "e \<in> set (estimate_groups gs) \<longleftrightarrow>
     (\<exists>(sid, grp) \<in> set gs. 3 \<le> length (relevant_matches grp)
        \<and> e = schedule_stats sid grp (relevant_matches grp))"
  by (induction gs) (auto simp: Let_def split: if_splits)

lemma length_relevant_matches: "length (relevant_matches g) \<le> length g"
  by (simp add: relevant_matches_def Let_def)

lemma groupby_mem:
  "(sid, grp) \<in> set (groupby_schedule_id ms) \<longleftrightarrow>
     sid \<in> sm_schedule_id ` set ms \<and> grp = filter (\<lambda>m. sm_schedule_id m = sid) ms"
  by (auto simp: groupby_schedule_id_def)

section \<open>Facts about the cleaners\<close>

lemma agg_max_Max: "grp \<noteq> [] \<Longrightarrow> agg_max col grp = Max (col ` set grp)"
proof -
  assume "grp \<noteq> []"
  then obtain r rs where g: "grp = r # rs" by (cases grp) auto
  have "Max (set (col r # map col rs)) = fold max (map col rs) (col r)"
    by (rule Max.set_eq_fold)
  then show ?thesis by (simp add: agg_max_def g)
qed

lemma agg_max_flag:
  assumes "grp \<noteq> []" and "\<forall>r\<in>set grp. col r = 0 \<or> col r = 1"
  shows "agg_max col grp = 1 \<longleftrightarrow> (\<exists>r\<in>set grp. col r = (1::int))"
proof -
  have fin: "finite (col ` set grp)" and ne: "col ` set grp \<noteq> {}" using assms(1) by auto
  have le: "\<forall>x\<in>col ` set grp. x \<le> 1" using assms(2) by auto
  show ?thesis
  proof
    assume "agg_max col grp = 1"
    then have "Max (col ` set grp) = 1" by (simp add: agg_max_Max[OF assms(1)])
    then have "1 \<in> col ` set grp" using Max_in[OF fin ne] by simp
    then show "\<exists>r\<in>set grp. col r = 1" by auto
  next
    assume "\<exists>r\<in>set grp. col r = 1"
    then have "1 \<in> col ` set grp" by force
    then have "Max (col ` set grp) = 1" using le fin by (intro Max_eqI) auto
    then show "agg_max col grp = 1" by (simp add: agg_max_Max[OF assms(1)])
  qed
qed

lemma location_combine_group:
  "location_columns (fst (combine_group grp)) = location_columns (hd grp)"
  by (simp add: combine_group_def location_columns_def)

lemma group_nonempty:
  "k \<in> set (map location_columns N) \<Longrightarrow> filter (\<lambda>r. location_columns r = k) N \<noteq> []"
  by (auto simp: filter_empty_conv)

lemma hd_group_location:
  assumes "k \<in> set (map location_columns N)"
  shows "location_columns (hd (filter (\<lambda>r. location_columns r = k) N)) = k"
proof -
  have "hd (filter (\<lambda>r. location_columns r = k) N) \<in> set (filter (\<lambda>r. location_columns r = k) N)"
    using group_nonempty[OF assms] by (rule hd_in_set)
  then show ?thesis by simp
qed

lemma combined_df_locations:
  "map (\<lambda>p. location_columns (fst p)) (combined_df N) = sort (remdups (map location_columns N))"
proof -
  let ?ks = "sort (remdups (map location_columns N))"
  let ?f = "\<lambda>k. location_columns (fst (combine_group (filter (\<lambda>r. location_columns r = k) N)))"
  have "?f k = k" if "k \<in> set ?ks" for k
  proof -
    from that have "k \<in> set (map location_columns N)" by simp
    then show ?thesis by (simp only: location_combine_group hd_group_location)
  qed
  then have "map ?f ?ks = ?ks" by (rule map_idI)
  then show ?thesis by (simp add: combined_df_def comp_def)
qed

lemma combined_df_distinct: "distinct (map (\<lambda>p. location_columns (fst p)) (combined_df N))"
  by (simp add: combined_df_locations)

lemma combined_df_mem:
  "p \<in> set (combined_df N) \<longleftrightarrow>
     (\<exists>k \<in> set (map location_columns N). p = combine_group (filter (\<lambda>r. location_columns r = k) N))"
  by (auto simp: combined_df_def)

lemma day_name_inj: "day_name d = day_name d' \<longleftrightarrow> d = d'"
  by (cases d; cases d') simp_all

lemma row_location_day_row: "row_location (day_row c d) = location_columns c"
  by (simp add: row_location_def day_row_def location_columns_def)

lemma weekday_day_row: "weekday (day_row c d) = day_name d"
  by (simp add: day_row_def)

lemma count_day: "length (filter (\<lambda>d'. d' = d \<and> P d') day_columns) = (if P d then 1 else 0)"
  by (cases d) (auto simp: day_columns_def)

lemma one_schedule_count:
  "length (filter (\<lambda>s. row_location s = k \<and> weekday s = day_name d)
             (map (day_row c) (filter (\<lambda>d'. day_flag d' c = 1) day_columns)))
     = (if location_columns c = k \<and> day_flag d c = 1 then 1 else 0)"
proof -
  let ?P = "\<lambda>s. row_location s = k \<and> weekday s = day_name d"
  let ?Q = "\<lambda>d'. d' = d \<and> (location_columns c = k \<and> day_flag d' c = 1)"
  have "filter ?P (map (day_row c) (filter (\<lambda>d'. day_flag d' c = 1) day_columns))
          = map (day_row c) (filter (?P \<circ> day_row c) (filter (\<lambda>d'. day_flag d' c = 1) day_columns))"
    by (rule filter_map)
  also have "filter (?P \<circ> day_row c) (filter (\<lambda>d'. day_flag d' c = 1) day_columns)
          = filter (\<lambda>d'. day_flag d' c = 1 \<and> (?P \<circ> day_row c) d') day_columns"
    by (simp only: filter_filter)
  also have "\<dots> = filter ?Q day_columns"
  proof (rule filter_cong)
    show "day_columns = day_columns" by (rule refl)
    fix d' assume "d' \<in> set day_columns"
    show "(day_flag d' c = 1 \<and> (?P \<circ> day_row c) d') = ?Q d'"
      unfolding comp_def row_location_day_row weekday_day_row day_name_inj by blast
  qed
  finally have "length (filter ?P (map (day_row c) (filter (\<lambda>d'. day_flag d' c = 1) day_columns)))
                  = length (filter ?Q day_columns)"
    by (simp only: length_map)
  then show ?thesis by (simp only: count_day)
qed

lemma day_specific_rows_count:
  assumes "distinct (map (\<lambda>p. location_columns (fst p)) C)"
  shows "length (filter (\<lambda>s. row_location s = k \<and> weekday s = day_name d) (day_specific_rows C))
           = (if \<exists>p\<in>set C. location_columns (fst p) = k \<and> day_flag d (fst p) = 1 then 1 else 0)"
  using assms
proof (induction C)
  case Nil then show ?case by (simp add: day_specific_rows_def)
next
  case (Cons p C)
  obtain c n where p: "p = (c, n)" by (cases p)
  have split: "day_specific_rows (p # C)
                 = map (day_row c) (filter (\<lambda>d'. day_flag d' c = 1) day_columns) @ day_specific_rows C"
    by (simp add: day_specific_rows_def p)
  from Cons.prems have d: "distinct (map (\<lambda>p. location_columns (fst p)) C)"
    and notin: "location_columns c \<notin> (\<lambda>p. location_columns (fst p)) ` set C" by (auto simp: p)
  note ih = Cons.IH[OF d]
  let ?P = "\<lambda>s. row_location s = k \<and> weekday s = day_name d"
  have len: "length (filter ?P (day_specific_rows (p # C)))
               = (if location_columns c = k \<and> day_flag d c = 1 then 1 else 0)
                 + length (filter ?P (day_specific_rows C))"
    by (simp only: split filter_append length_append one_schedule_count)
  have ex: "(\<exists>q\<in>set (p # C). location_columns (fst q) = k \<and> day_flag d (fst q) = 1)
              \<longleftrightarrow> (location_columns c = k \<and> day_flag d c = 1)
                  \<or> (\<exists>q\<in>set C. location_columns (fst q) = k \<and> day_flag d (fst q) = 1)"
    by (simp add: p)
  have excl: "\<not> (\<exists>q\<in>set C. location_columns (fst q) = k \<and> day_flag d (fst q) = 1)"
    if "location_columns c = k"
    using that notin by force
  show ?case
    unfolding len ex ih using excl by auto
qed

lemma clean_projection:
  assumes "\<And>r x. f (r\<lparr> schedule_id := x \<rparr>) = f r"
  shows "map f (map (\<lambda>(i, r). r\<lparr> schedule_id := g i \<rparr>) (enumerate 0 xs)) = map f xs"
proof -
  have "map f (map (\<lambda>(i, r). r\<lparr> schedule_id := g i \<rparr>) (enumerate 0 xs))
          = map (\<lambda>p. f (snd p)) (enumerate 0 xs)"
    by (auto simp: assms)
  also have "\<dots> = map f (map snd (enumerate 0 xs))"
    by (simp only: map_map comp_def)
  also have "\<dots> = map f xs" by (simp only: map_snd_enumerate)
  finally show ?thesis .
qed

lemma length_filter_map_proj:
  "length (filter P xs) = length (filter id (map P xs))"
  by (induction xs) auto

lemma clean_count:
  "length (filter (\<lambda>s. row_location s = k \<and> weekday s = day_name d) (clean_schedule_data_day_specific df))
   = length (filter (\<lambda>s. row_location s = k \<and> weekday s = day_name d)
        (day_specific_rows (combined_df (map normalize_row_day_specific df))))"
proof -
  let ?P = "\<lambda>s. row_location s = k \<and> weekday s = day_name d"
  have "map ?P (clean_schedule_data_day_specific df)
          = map ?P (day_specific_rows (combined_df (map normalize_row_day_specific df)))"
    unfolding clean_schedule_data_day_specific_def
    by (rule clean_projection) (simp add: row_location_def)
  then show ?thesis by (simp only: length_filter_map_proj[of ?P])
qed

lemma flag_01: "flag b = 0 \<or> flag b = 1"
  by (simp add: flag_def)

lemma day_specific_flags:
  assumes "r \<in> set (map normalize_row_day_specific df)"
  shows "day_flag d r = 0 \<or> day_flag d r = 1"
    and "n_Week1 r = 0 \<or> n_Week1 r = 1" and "n_Week2 r = 0 \<or> n_Week2 r = 1"
    and "n_Week3 r = 0 \<or> n_Week3 r = 1" and "n_Week4 r = 0 \<or> n_Week4 r = 1"
    and "n_Week5 r = 0 \<or> n_Week5 r = 1"
proof -
  from assms obtain x where r: "r = normalize_row_day_specific x" by auto
  show "day_flag d r = 0 \<or> day_flag d r = 1"
    unfolding r by (cases d) (simp_all add: normalize_row_day_specific_def Let_def flag_01)
  show "n_Week1 r = 0 \<or> n_Week1 r = 1" "n_Week2 r = 0 \<or> n_Week2 r = 1"
    "n_Week3 r = 0 \<or> n_Week3 r = 1" "n_Week4 r = 0 \<or> n_Week4 r = 1"
    "n_Week5 r = 0 \<or> n_Week5 r = 1"
    unfolding r by (simp_all add: normalize_row_day_specific_def Let_def flag_01)
qed

lemma day_flag_combine: "day_flag d (fst (combine_group grp)) = agg_max (day_flag d) grp"
  by (cases d) (simp_all add: combine_group_def)

lemma weeks_combine:
  "n_Week1 (fst (combine_group grp)) = agg_max n_Week1 grp"
  "n_Week2 (fst (combine_group grp)) = agg_max n_Week2 grp"
  "n_Week3 (fst (combine_group grp)) = agg_max n_Week3 grp"
  "n_Week4 (fst (combine_group grp)) = agg_max n_Week4 grp"
  "n_Week5 (fst (combine_group grp)) = agg_max n_Week5 grp"
  by (simp_all add: combine_group_def)

text \<open>A 0/1 column of the combined row of a location is 1 exactly when it is 1 in some row there.\<close>

lemma combined_flag:
  assumes k: "k \<in> set (map location_columns N)"
    and f: "\<forall>r\<in>set N. col r = 0 \<or> col r = (1::int)"
  shows "agg_max col (filter (\<lambda>r. location_columns r = k) N) = 1
           \<longleftrightarrow> (\<exists>r\<in>set N. location_columns r = k \<and> col r = 1)"
proof -
  have "agg_max col (filter (\<lambda>r. location_columns r = k) N) = 1
          \<longleftrightarrow> (\<exists>r\<in>set (filter (\<lambda>r. location_columns r = k) N). col r = 1)"
    using f by (intro agg_max_flag group_nonempty[OF k]) auto
  then show ?thesis by auto
qed

lemma combined_exists:
  assumes flags: "\<forall>r\<in>set N. col r = 0 \<or> col r = (1::int)"
    and comb: "\<And>grp. col (fst (combine_group grp)) = agg_max col grp"
  shows "(\<exists>p\<in>set (combined_df N). location_columns (fst p) = k \<and> col (fst p) = 1)
           \<longleftrightarrow> (\<exists>r\<in>set N. location_columns r = k \<and> col r = 1)"
proof
  assume "\<exists>p\<in>set (combined_df N). location_columns (fst p) = k \<and> col (fst p) = 1"
  then obtain p where p: "p \<in> set (combined_df N)" "location_columns (fst p) = k" "col (fst p) = 1"
    by blast
  from p(1) obtain k' where k': "k' \<in> set (map location_columns N)"
    "p = combine_group (filter (\<lambda>r. location_columns r = k') N)"
    unfolding combined_df_mem by blast
  have "location_columns (fst p) = k'"
    unfolding k'(2) location_combine_group by (rule hd_group_location[OF k'(1)])
  with p(2) have kk: "k' = k" by simp
  from p(3) have "agg_max col (filter (\<lambda>r. location_columns r = k) N) = 1"
    unfolding k'(2) comb kk .
  then show "\<exists>r\<in>set N. location_columns r = k \<and> col r = 1"
    using combined_flag[OF k'(1)[unfolded kk] flags] by blast
next
  assume "\<exists>r\<in>set N. location_columns r = k \<and> col r = 1"
  then have k: "k \<in> set (map location_columns N)" and
    ex: "\<exists>r\<in>set N. location_columns r = k \<and> col r = 1" by auto
  let ?p = "combine_group (filter (\<lambda>r. location_columns r = k) N)"
  have 1: "?p \<in> set (combined_df N)" unfolding combined_df_mem using k by blast
  have 2: "location_columns (fst ?p) = k"
    unfolding location_combine_group by (rule hd_group_location[OF k])
  have 3: "col (fst ?p) = 1" unfolding comb using combined_flag[OF k flags] ex by blast
  from 1 2 3 show "\<exists>p\<in>set (combined_df N). location_columns (fst p) = k \<and> col (fst p) = 1"
    by blast
qed

lemma day_specific_rows_mem:
  "r \<in> set (day_specific_rows C) \<Longrightarrow> \<exists>p\<in>set C. \<exists>d. r = day_row (fst p) d"
proof -
  assume "r \<in> set (day_specific_rows C)"
  then obtain c n d where "(c, n) \<in> set C" "r = day_row c d"
    by (auto simp: day_specific_rows_def)
  then have "(c, n) \<in> set C \<and> r = day_row (fst (c, n)) d" by simp
  then show ?thesis by blast
qed

lemma clean_mem:
  assumes "s \<in> set (clean_schedule_data_day_specific df)"
  shows "\<exists>p\<in>set (combined_df (map normalize_row_day_specific df)). \<exists>d x.
           s = (day_row (fst p) d)\<lparr> schedule_id := x \<rparr>"
proof -
  from assms obtain i r where
    ir: "(i, r) \<in> set (enumerate 0 (day_specific_rows (combined_df (map normalize_row_day_specific df))))"
    and s: "s = r\<lparr> schedule_id := 2000000 + int i \<rparr>"
    unfolding clean_schedule_data_day_specific_def by auto
  from ir have "r \<in> set (day_specific_rows (combined_df (map normalize_row_day_specific df)))"
    by (auto simp: in_set_enumerate_eq)
  from day_specific_rows_mem[OF this] s show ?thesis by blast
qed

lemma week_of_rule:
  assumes s: "s \<in> set (clean_schedule_data_day_specific df)"
    and flags: "\<forall>r\<in>set (map normalize_row_day_specific df). col r = 0 \<or> col r = (1::int)"
    and comb: "\<And>grp. col (fst (combine_group grp)) = agg_max col grp"
    and wk: "\<And>c d x. wk ((day_row c d)\<lparr> schedule_id := x \<rparr>) = (col c = 1)"
  shows "wk s \<longleftrightarrow> (\<exists>r\<in>set (map normalize_row_day_specific df).
                        location_columns r = row_location s \<and> col r = 1)"
proof -
  let ?N = "map normalize_row_day_specific df"
  from clean_mem[OF s] obtain p d x where p: "p \<in> set (combined_df ?N)"
    and sp: "s = (day_row (fst p) d)\<lparr> schedule_id := x \<rparr>" by blast
  from p obtain k where k: "k \<in> set (map location_columns ?N)"
    and pk: "p = combine_group (filter (\<lambda>r. location_columns r = k) ?N)"
    unfolding combined_df_mem by blast
  have loc: "row_location s = k"
  proof -
    have "row_location s = location_columns (fst p)"
      unfolding sp by (simp add: row_location_def day_row_def location_columns_def)
    also have "\<dots> = k" unfolding pk location_combine_group by (rule hd_group_location[OF k])
    finally show ?thesis .
  qed
  have "wk s \<longleftrightarrow> col (fst p) = 1" unfolding sp by (rule wk)
  also have "\<dots> \<longleftrightarrow> agg_max col (filter (\<lambda>r. location_columns r = k) ?N) = 1"
    unfolding pk comb ..
  also have "\<dots> \<longleftrightarrow> (\<exists>r\<in>set ?N. location_columns r = k \<and> col r = 1)"
    by (rule combined_flag[OF k flags])
  finally show ?thesis unfolding loc .
qed

section \<open>The claims\<close>

subsection \<open>C1: the day and time stage\<close>

text \<open>
  C1. The claim: a candidate passes the day and time stage exactly when the rule's
  weekday is the citation's and \<open>fromHour \<le> timeOfDay < toHour\<close>, with
  \<open>timeOfDay = hour + minute / 60\<close>; a citation at 10:00 does not match a rule with the
  window 8 to 10. The matcher compares with \<open>\<le>\<close> at both ends, so the citation at
  10:00 is kept.
\<close>

theorem C1_upper_bound_inclusive:
  "citation_time_decimal (tuesday_citation ''2500 MISSION ST'' 10 0) = 10
   \<and> scheduled_from_hour mission_rule = 8 \<and> scheduled_to_hour mission_rule = 10
   \<and> day_and_time_candidates [mission_rule] (tuesday_citation ''2500 MISSION ST'' 10 0) [0] = [0]
   \<and> \<not> (citation_time_decimal (tuesday_citation ''2500 MISSION ST'' 10 0)
          < real_of_int (scheduled_to_hour mission_rule))"
  by (simp add: day_and_time_candidates_def mission_rule_fields tuesday_citation_def
      citation_weekday_def citation_time_decimal_def)

text \<open>
  C1, amended. A candidate passes the day and time stage exactly when the rule's weekday
  is the citation's and \<open>fromHour \<le> timeOfDay \<le> toHour\<close>, both bounds included, with
  \<open>timeOfDay = hour + minute / 60\<close> (and Tuesday, 10.0 for a timestamp that does not
  parse).
\<close>

theorem C1_day_and_time_membership:
  "idx \<in> set (day_and_time_candidates schedules c street) \<longleftrightarrow>
     idx \<in> set street
     \<and> weekday (schedules ! idx) = citation_weekday c
     \<and> real_of_int (scheduled_from_hour (schedules ! idx)) \<le> citation_time_decimal c
     \<and> citation_time_decimal c \<le> real_of_int (scheduled_to_hour (schedules ! idx))"
  by (auto simp: day_and_time_candidates_def Let_def)

text \<open>At 09:59 and at 10:00 the rule with the window 8 to 10 is kept, at 10:01 it is not.\<close>

theorem C1_day_and_time_membership_witness:
  "0 \<in> set (day_and_time_candidates [mission_rule] (tuesday_citation ''2500 MISSION ST'' 9 59) [0])
   \<and> 0 \<in> set (day_and_time_candidates [mission_rule] (tuesday_citation ''2500 MISSION ST'' 10 0) [0])
   \<and> 0 \<notin> set (day_and_time_candidates [mission_rule] (tuesday_citation ''2500 MISSION ST'' 10 1) [0])"
  using C1_day_and_time_membership [of 0 "[mission_rule]" "tuesday_citation ''2500 MISSION ST'' 9 59" "[0]"]
        C1_day_and_time_membership [of 0 "[mission_rule]" "tuesday_citation ''2500 MISSION ST'' 10 0" "[0]"]
        C1_day_and_time_membership [of 0 "[mission_rule]" "tuesday_citation ''2500 MISSION ST'' 10 1" "[0]"]
  by (simp add: mission_rule_fields tuesday_citation_def citation_weekday_def citation_time_decimal_def)

subsection \<open>C2: the grid index\<close>

text \<open>
  C2. The claim: when \<open>maxDistanceMeters \<le> gridSearchRadius * cellSizeMeters\<close> and some
  point of a rule's line lies within \<open>maxDistanceMeters\<close> of the query point, the rule's
  index is among the candidates of the cell block around the query. The index stores a
  rule under the cell of its first vertex only. Below, the limit is one cell (100 m), the
  query point is the second vertex of the line (distance zero, whatever the distance
  function), the first vertex lies eleven cells to the north, and the candidate list is
  empty. The cells are far from a cell border (41924.7, 41913.6 and -107893.6 cells), so
  the rounding of the doubles does not move them: \<open>cells_under_rounding\<close> above.
\<close>

theorem C2_later_vertex_missed:
  "max_distance_meters one_cell_config
     \<le> real_of_int (grid_search_radius one_cell_config) * grid_size_meters one_cell_config
   \<and> parsed_coords long_rule_reversed = Some [(37.770, -122.420), (37.760, -122.420)]
   \<and> planar_distance (37.760, -122.420) (37.760, -122.420) \<le> max_distance_meters one_cell_config
   \<and> build_grid exact_arith one_cell_config (\<lambda>_. []) (enumerate 0 [long_rule_reversed])
       = Some ((\<lambda>_. [])((41924, -107893) := [0]))
   \<and> spatial_candidates exact_arith one_cell_config ((\<lambda>_. [])((41924, -107893) := [0]))
        37.760 (-122.420) = Some []"
proof -
  have 1: "max_distance_meters one_cell_config
     \<le> real_of_int (grid_search_radius one_cell_config) * grid_size_meters one_cell_config"
    by (simp add: one_cell_config_def)
  have 2: "parsed_coords long_rule_reversed = Some [(37.770, -122.420), (37.760, -122.420)]"
    by (simp add: long_rule_reversed_def)
  have 3: "planar_distance (37.760, -122.420) (37.760, -122.420) \<le> max_distance_meters one_cell_config"
    by (simp add: planar_distance_def one_cell_config_def)
  have c2: "lat_lon_to_grid exact_arith one_cell_config 37.760 (-122.420) = Some (41913, -107893)"
    by (simp add: lat_lon_to_grid_def exact_arith_def one_cell_config_def py_int_def)
  have 4: "build_grid exact_arith one_cell_config (\<lambda>_. []) (enumerate 0 [long_rule_reversed])
       = Some ((\<lambda>_. [])((41924, -107893) := [0]))"
    by (simp add: long_rule_reversed_def lat_lon_to_grid_def exact_arith_def one_cell_config_def
        py_int_def)
  have 5: "spatial_candidates exact_arith one_cell_config ((\<lambda>_. [])((41924, -107893) := [0]))
        37.760 (-122.420) = Some []"
    unfolding spatial_candidates_def c2
    by (simp add: one_cell_config_def upto.simps)
  show ?thesis using 1 2 3 4 5 by blast
qed

text \<open>
  C2, amended. For a cell size other than zero the index is built and every query is
  answered, and the candidates are exactly the indexed rules whose first vertex falls in
  a cell of the \<open>(2r + 1) \<times> (2r + 1)\<close> block around the query point's cell. So a rule is
  sure to be a candidate when the cell of its first vertex is at most
  \<open>gridSearchRadius\<close> cells from the query's cell in both grid coordinates, and in no
  other case. This holds however the doubles round; no bound in metres on the distance
  to the line, or to its first vertex, is part of it.
\<close>

theorem C2_first_vertex_indexed:
  "(grid_size_meters cfg \<noteq> 0 \<longrightarrow>
      build_hybrid_index fa cfg parse schedule_df \<noteq> None
      \<and> spatial_candidates fa cfg g lat lon \<noteq> None)
   \<and> (build_hybrid_index fa cfg parse schedule_df = Some (schedules, grid)
      \<and> spatial_candidates fa cfg grid lat lon = Some cands \<longrightarrow>
        (\<exists>qcell. lat_lon_to_grid fa cfg lat lon = Some qcell
           \<and> (idx \<in> set cands \<longleftrightarrow>
                idx < length schedules
                \<and> (\<exists>cell. first_vertex_cell fa cfg (schedules ! idx) = Some cell
                          \<and> in_block (grid_search_radius cfg) qcell cell))))"
proof (intro conjI impI)
  assume nz: "grid_size_meters cfg \<noteq> 0"
  from build_grid_total[OF nz] show "build_hybrid_index fa cfg parse schedule_df \<noteq> None"
    by (auto simp: build_hybrid_index_def Let_def split: option.splits)
  from nz show "spatial_candidates fa cfg g lat lon \<noteq> None"
    by (auto simp: spatial_candidates_def lat_lon_to_grid_def Let_def split: option.splits)
next
  assume "build_hybrid_index fa cfg parse schedule_df = Some (schedules, grid)
      \<and> spatial_candidates fa cfg grid lat lon = Some cands"
  then have b: "build_hybrid_index fa cfg parse schedule_df = Some (schedules, grid)"
    and s: "spatial_candidates fa cfg grid lat lon = Some cands" by auto
  from candidates_iff[OF b s]
  show "\<exists>qcell. lat_lon_to_grid fa cfg lat lon = Some qcell
           \<and> (idx \<in> set cands \<longleftrightarrow>
                idx < length schedules
                \<and> (\<exists>cell. first_vertex_cell fa cfg (schedules ! idx) = Some cell
                          \<and> in_block (grid_search_radius cfg) qcell cell))"
    by blast
qed

text \<open>
  The Mission St rule is a candidate for a query point half way along its line: the first
  vertex lies in the cell (41913, -107893) and the query in (41914, -107893).
\<close>

theorem C2_first_vertex_indexed_witness:
  "grid_size_meters one_cell_config \<noteq> 0
   \<and> build_hybrid_index exact_arith one_cell_config
        (\<lambda>_. Some [(37.760, -122.420), (37.761, -122.419)]) [mission_row]
       = Some ([add_index_columns (\<lambda>_. Some [(37.760, -122.420), (37.761, -122.419)]) mission_row],
               (\<lambda>_. [])((41913, -107893) := [0]))
   \<and> spatial_candidates exact_arith one_cell_config ((\<lambda>_. [])((41913, -107893) := [0]))
        37.7605 (-122.4195) = Some [0]
   \<and> 0 \<in> set [0::nat]
   \<and> first_vertex_cell exact_arith one_cell_config
        ([add_index_columns (\<lambda>_. Some [(37.760, -122.420), (37.761, -122.419)]) mission_row] ! 0)
       = Some (41913, -107893)
   \<and> lat_lon_to_grid exact_arith one_cell_config 37.7605 (-122.4195) = Some (41914, -107893)
   \<and> in_block (grid_search_radius one_cell_config) (41914, -107893) (41913, -107893)"
proof -
  let ?parse = "\<lambda>_::string. Some [(37.760, -122.420), (37.761, -122.419) :: point]"
  let ?row = "add_index_columns ?parse mission_row"
  let ?grid = "(\<lambda>_. [])((41913 :: int, -107893 :: int) := [0 :: nat])"
  have nz: "grid_size_meters one_cell_config \<noteq> 0" by (simp add: one_cell_config_def)
  have coords: "parsed_coords ?row = Some [(37.760, -122.420), (37.761, -122.419)]"
    by (simp add: add_index_columns_def schedule_row.extend_def)
  have q: "lat_lon_to_grid exact_arith one_cell_config 37.7605 (-122.4195) = Some (41914, -107893)"
    by (simp add: lat_lon_to_grid_def exact_arith_def one_cell_config_def py_int_def)
  have fv: "first_vertex_cell exact_arith one_cell_config ([?row] ! 0) = Some (41913, -107893)"
    unfolding first_vertex_cell_def nth_Cons_0 coords
    by (simp add: lat_lon_to_grid_def exact_arith_def one_cell_config_def py_int_def)
  have g: "build_grid exact_arith one_cell_config (\<lambda>_. []) (enumerate 0 [?row]) = Some ?grid"
    by (simp add: add_index_columns_def schedule_row.extend_def lat_lon_to_grid_def exact_arith_def
        one_cell_config_def py_int_def)
  have v: "valid_schedules ?parse [mission_row] = [?row]"
    by (simp add: valid_schedules_def add_index_columns_def schedule_row.extend_def)
  have b: "build_hybrid_index exact_arith one_cell_config ?parse [mission_row] = Some ([?row], ?grid)"
    unfolding build_hybrid_index_def Let_def v g by simp
  have blk: "in_block (grid_search_radius one_cell_config) (41914, -107893) (41913, -107893)"
    by (simp add: in_block_def one_cell_config_def)
  obtain cands where s: "spatial_candidates exact_arith one_cell_config ?grid 37.7605 (-122.4195) = Some cands"
    using C2_first_vertex_indexed [of one_cell_config exact_arith ?parse "[mission_row]" ?grid
            "37.7605" "-122.4195"] nz
    by blast
  from C2_first_vertex_indexed [of one_cell_config exact_arith ?parse "[mission_row]" ?grid
            "37.7605" "-122.4195" "[?row]" ?grid cands 0] b s
  obtain qcell where qc: "lat_lon_to_grid exact_arith one_cell_config 37.7605 (-122.4195) = Some qcell"
    and iff: "0 \<in> set cands \<longleftrightarrow>
                0 < length [?row]
                \<and> (\<exists>cell. first_vertex_cell exact_arith one_cell_config ([?row] ! 0) = Some cell
                          \<and> in_block (grid_search_radius one_cell_config) qcell cell)"
    by blast
  from qc q have qq: "qcell = (41914, -107893)" by simp
  have len: "0 < length [?row]" by simp
  have "0 \<in> set cands" unfolding iff qq using len fv blk by blast
  moreover have "spatial_candidates exact_arith one_cell_config ?grid 37.7605 (-122.4195) = Some [0]"
    unfolding spatial_candidates_def q by (simp add: one_cell_config_def upto.simps)
  ultimately show ?thesis using nz b q fv blk by simp
qed

subsection \<open>C4: merging rows of one location\<close>

text \<open>
  C4. The claim: among raw rows of one corridor, limits, side, weekday and hours, exactly
  two rows whose week patterns OR to 11111 or 11110 are merged into one rule; three or
  more rows, or two rows with any other OR (10100 and 00010 give 10110), stay separate
  rules. The cleaners group by location and hours and take the maximum of every week and
  weekday column, whatever the number of rows and whatever the pattern: the rows 10100
  and 00010 become one Tuesday rule with 10110, three rows 10100, 00010 and 01000 become
  one rule with 11110, and the simple cleaner likewise writes one row for the two.
\<close>

theorem C4_other_patterns_merged:
  "map (\<lambda>s. (weekday s, week1 s, week2 s, week3 s, week4 s, week5 s))
       (clean_schedule_data_day_specific [mission_raw 1 1 0 1 0 0, mission_raw 2 0 0 0 1 0])
     = [(''Tuesday'', True, False, True, True, False)]
   \<and> map (\<lambda>s. (weekday s, week1 s, week2 s, week3 s, week4 s, week5 s))
       (clean_schedule_data_day_specific
          [mission_raw 1 1 0 1 0 0, mission_raw 2 0 0 0 1 0, mission_raw 3 0 1 0 0 0])
     = [(''Tuesday'', True, True, True, True, False)]
   \<and> map (\<lambda>s. (n_Week1 (combined s), n_Week2 (combined s), n_Week3 (combined s),
                 n_Week4 (combined s), n_Week5 (combined s), RecordCount s))
       (clean_schedule_data_simple [mission_raw 1 1 0 1 0 0, mission_raw 2 0 0 0 1 0])
     = [(1, 0, 1, 1, 0, 2)]"
  by code_simp

text \<open>
  C4, amended. All raw rows that share corridor, limits, side, block side and hours are
  merged, however many they are and whatever their week patterns. The day-specific cleaner
  writes for each such location and each weekday exactly one rule when some row of the
  location names that weekday and none otherwise, and a week bit of a rule is set exactly
  when it is set in some row of the location (the OR over all rows of the location, of
  every weekday). The simple cleaner writes exactly one row for each location, the
  locations in ascending order.
\<close>

theorem C4_groups_always_merged:
  "length (filter (\<lambda>s. row_location s = k \<and> weekday s = day_name d)
             (clean_schedule_data_day_specific df))
     = (if \<exists>r\<in>set (map normalize_row_day_specific df).
              location_columns r = k \<and> day_flag d r = 1 then 1 else 0)
   \<and> (\<forall>s\<in>set (clean_schedule_data_day_specific df).
        (week1 s \<longleftrightarrow> (\<exists>r\<in>set (map normalize_row_day_specific df).
                          location_columns r = row_location s \<and> n_Week1 r = 1))
      \<and> (week2 s \<longleftrightarrow> (\<exists>r\<in>set (map normalize_row_day_specific df).
                          location_columns r = row_location s \<and> n_Week2 r = 1))
      \<and> (week3 s \<longleftrightarrow> (\<exists>r\<in>set (map normalize_row_day_specific df).
                          location_columns r = row_location s \<and> n_Week3 r = 1))
      \<and> (week4 s \<longleftrightarrow> (\<exists>r\<in>set (map normalize_row_day_specific df).
                          location_columns r = row_location s \<and> n_Week4 r = 1))
      \<and> (week5 s \<longleftrightarrow> (\<exists>r\<in>set (map normalize_row_day_specific df).
                          location_columns r = row_location s \<and> n_Week5 r = 1)))
   \<and> map (\<lambda>s. location_columns (combined s)) (clean_schedule_data_simple df)
       = sort (remdups (map location_columns (map normalize_row_simple df)))"
proof (intro conjI ballI)
  let ?N = "map normalize_row_day_specific df"
  have df: "\<forall>r\<in>set ?N. day_flag d r = 0 \<or> day_flag d r = 1"
    using day_specific_flags(1) by blast
  show "length (filter (\<lambda>s. row_location s = k \<and> weekday s = day_name d)
             (clean_schedule_data_day_specific df))
     = (if \<exists>r\<in>set ?N. location_columns r = k \<and> day_flag d r = 1 then 1 else 0)"
    unfolding clean_count day_specific_rows_count[OF combined_df_distinct]
      combined_exists[OF df day_flag_combine] ..
next
  fix s assume s: "s \<in> set (clean_schedule_data_day_specific df)"
  let ?N = "map normalize_row_day_specific df"
  show "week1 s \<longleftrightarrow> (\<exists>r\<in>set ?N. location_columns r = row_location s \<and> n_Week1 r = 1)"
    using day_specific_flags(2) by (intro week_of_rule[OF s _ weeks_combine(1)]) (auto simp: day_row_def)
  show "week2 s \<longleftrightarrow> (\<exists>r\<in>set ?N. location_columns r = row_location s \<and> n_Week2 r = 1)"
    using day_specific_flags(3) by (intro week_of_rule[OF s _ weeks_combine(2)]) (auto simp: day_row_def)
  show "week3 s \<longleftrightarrow> (\<exists>r\<in>set ?N. location_columns r = row_location s \<and> n_Week3 r = 1)"
    using day_specific_flags(4) by (intro week_of_rule[OF s _ weeks_combine(3)]) (auto simp: day_row_def)
  show "week4 s \<longleftrightarrow> (\<exists>r\<in>set ?N. location_columns r = row_location s \<and> n_Week4 r = 1)"
    using day_specific_flags(5) by (intro week_of_rule[OF s _ weeks_combine(4)]) (auto simp: day_row_def)
  show "week5 s \<longleftrightarrow> (\<exists>r\<in>set ?N. location_columns r = row_location s \<and> n_Week5 r = 1)"
    using day_specific_flags(6) by (intro week_of_rule[OF s _ weeks_combine(5)]) (auto simp: day_row_def)
next
  have "map (\<lambda>s. location_columns (combined s)) (clean_schedule_data_simple df)
          = map (\<lambda>p. location_columns (fst (snd p))) (enumerate 0 (combined_df (map normalize_row_simple df)))"
    by (auto simp: clean_schedule_data_simple_def)
  also have "\<dots> = map (\<lambda>p. location_columns (fst p)) (map snd (enumerate 0 (combined_df (map normalize_row_simple df))))"
    by (simp only: map_map comp_def)
  also have "\<dots> = sort (remdups (map location_columns (map normalize_row_simple df)))"
    by (simp only: map_snd_enumerate combined_df_locations)
  finally show "map (\<lambda>s. location_columns (combined s)) (clean_schedule_data_simple df)
       = sort (remdups (map location_columns (map normalize_row_simple df)))" .
qed

theorem C4_groups_always_merged_witness:
  "(\<exists>r\<in>set (map normalize_row_day_specific [mission_raw 1 1 0 1 0 0, mission_raw 2 0 0 0 1 0]).
       location_columns r = (''Mission St'', ''20th St  -  21st St'', ''R'', ''Odd'', 8, 10)
       \<and> day_flag Tuesday r = 1)
   \<and> length (filter (\<lambda>s. row_location s = (''Mission St'', ''20th St  -  21st St'', ''R'', ''Odd'', 8, 10)
                           \<and> weekday s = day_name Tuesday)
               (clean_schedule_data_day_specific [mission_raw 1 1 0 1 0 0, mission_raw 2 0 0 0 1 0])) = 1"
proof -
  let ?df = "[mission_raw 1 1 0 1 0 0, mission_raw 2 0 0 0 1 0]"
  let ?k = "(''Mission St'', ''20th St  -  21st St'', ''R'', ''Odd'', 8 :: int, 10 :: int)"
  have h: "\<exists>r\<in>set (map normalize_row_day_specific ?df).
             location_columns r = ?k \<and> day_flag Tuesday r = 1"
    by code_simp
  from C4_groups_always_merged [of ?k Tuesday ?df]
  have "length (filter (\<lambda>s. row_location s = ?k \<and> weekday s = day_name Tuesday)
                  (clean_schedule_data_day_specific ?df))
          = (if \<exists>r\<in>set (map normalize_row_day_specific ?df).
                   location_columns r = ?k \<and> day_flag Tuesday r = 1 then 1 else 0)"
    by (rule conjunct1)
  with h show ?thesis by (simp only: if_True simp_thms)
qed

subsection \<open>C5: schedules with few matches\<close>

text \<open>
  C5. The claim: a schedule with fewer than three matches inside its window falls back to
  the matches up to two hours after the window, and when it still has fewer than three
  its row is emitted with a citation count of 0 and empty statistics; no schedule is
  dropped. \<open>calculate_estimated_citation_times\<close> leaves such a schedule out: for a
  schedule with a single match, inside its window, the output is empty.
\<close>

theorem C5_group_dropped:
  "sm_time_relevance (make_schedule_match ''C1'' 9 2000000 12 8 10 ''Mission St'' ''20th St - 21st St'')
     = DURING_SCHEDULE
   \<and> calculate_estimated_citation_times
       [make_schedule_match ''C1'' 9 2000000 12 8 10 ''Mission St'' ''20th St - 21st St''] = []"
  by (simp add: calculate_estimated_citation_times_def groupby_schedule_id_def make_schedule_match_def
      calculate_time_relevance_def relevant_matches_def)

text \<open>
  C5, amended. A match is during the schedule when \<open>fromHour \<le> hour \<le> toHour\<close> and
  after it when \<open>toHour < hour \<le> toHour + 2\<close>. The statistics of a schedule use the
  matches during it when there are three or more, else those during or after it. A
  schedule has a row in the output exactly when three or more such matches exist, and
  the citation count of every row is at least three: a schedule below the threshold has
  no row.
\<close>

theorem C5_below_threshold_omitted:
  "(sm_time_relevance (make_schedule_match cid h s d f t corr lims) = DURING_SCHEDULE
      \<longleftrightarrow> f \<le> h \<and> h \<le> t)
   \<and> (sm_time_relevance (make_schedule_match cid h s d f t corr lims) = AFTER_SCHEDULE
      \<longleftrightarrow> \<not> (f \<le> h \<and> h \<le> t) \<and> t < h \<and> h \<le> t + 2)
   \<and> (sid \<in> set (map se_schedule_id (calculate_estimated_citation_times matches_df)) \<longleftrightarrow>
      3 \<le> length (relevant_matches (filter (\<lambda>m. sm_schedule_id m = sid) matches_df)))
   \<and> (\<forall>e \<in> set (calculate_estimated_citation_times matches_df). 3 \<le> se_citation_count e)"
proof -
  let ?g = "\<lambda>sid. filter (\<lambda>m. sm_schedule_id m = sid) matches_df"
  have nonempty: "sid \<in> sm_schedule_id ` set matches_df" if "3 \<le> length (relevant_matches (?g sid))"
  proof -
    have "length (relevant_matches (?g sid)) \<le> length (?g sid)"
      by (rule length_relevant_matches)
    with that have "?g sid \<noteq> []" by auto
    then show ?thesis by (auto simp: filter_empty_conv)
  qed
  have 1: "sid \<in> set (map se_schedule_id (calculate_estimated_citation_times matches_df)) \<longleftrightarrow>
      3 \<le> length (relevant_matches (?g sid))"
  proof
    assume "sid \<in> set (map se_schedule_id (calculate_estimated_citation_times matches_df))"
    then obtain grp where "(sid, grp) \<in> set (groupby_schedule_id matches_df)"
      "3 \<le> length (relevant_matches grp)"
      unfolding calculate_estimated_citation_times_def estimate_groups_ids by auto
    then show "3 \<le> length (relevant_matches (?g sid))" by (simp add: groupby_mem)
  next
    assume a: "3 \<le> length (relevant_matches (?g sid))"
    from nonempty[OF a] have "(sid, ?g sid) \<in> set (groupby_schedule_id matches_df)"
      by (simp add: groupby_mem)
    with a have "(sid, ?g sid) \<in> set (filter (\<lambda>(sid, grp). 3 \<le> length (relevant_matches grp))
                     (groupby_schedule_id matches_df))" by simp
    then have "fst (sid, ?g sid) \<in> fst ` set (filter (\<lambda>(sid, grp). 3 \<le> length (relevant_matches grp))
                     (groupby_schedule_id matches_df))" by (rule imageI)
    then show "sid \<in> set (map se_schedule_id (calculate_estimated_citation_times matches_df))"
      unfolding calculate_estimated_citation_times_def estimate_groups_ids by simp
  qed
  have 2: "\<forall>e \<in> set (calculate_estimated_citation_times matches_df). 3 \<le> se_citation_count e"
  proof
    fix e assume "e \<in> set (calculate_estimated_citation_times matches_df)"
    then obtain s grp where "3 \<le> length (relevant_matches grp)"
      "e = schedule_stats s grp (relevant_matches grp)"
      unfolding calculate_estimated_citation_times_def estimate_groups_mem by auto
    then show "3 \<le> se_citation_count e" by (simp add: schedule_stats_def Let_def)
  qed
  have 3: "sm_time_relevance (make_schedule_match cid h s d f t corr lims) = DURING_SCHEDULE
      \<longleftrightarrow> f \<le> h \<and> h \<le> t"
    by (simp add: make_schedule_match_def calculate_time_relevance_def)
  have 4: "sm_time_relevance (make_schedule_match cid h s d f t corr lims) = AFTER_SCHEDULE
      \<longleftrightarrow> \<not> (f \<le> h \<and> h \<le> t) \<and> t < h \<and> h \<le> t + 2"
    by (simp add: make_schedule_match_def calculate_time_relevance_def)
  show ?thesis using 1 2 3 4 by blast
qed

theorem C5_below_threshold_omitted_witness:
  "3 \<le> length (relevant_matches (filter (\<lambda>m. sm_schedule_id m = 2000000)
         [make_schedule_match ''C1'' 8 2000000 5 8 10 ''Mission St'' ''20th St - 21st St'',
          make_schedule_match ''C2'' 9 2000000 7 8 10 ''Mission St'' ''20th St - 21st St'',
          make_schedule_match ''C3'' 11 2000000 9 8 10 ''Mission St'' ''20th St - 21st St'']))
   \<and> 2000000 \<in> set (map se_schedule_id (calculate_estimated_citation_times
         [make_schedule_match ''C1'' 8 2000000 5 8 10 ''Mission St'' ''20th St - 21st St'',
          make_schedule_match ''C2'' 9 2000000 7 8 10 ''Mission St'' ''20th St - 21st St'',
          make_schedule_match ''C3'' 11 2000000 9 8 10 ''Mission St'' ''20th St - 21st St'']))"
proof -
  let ?ms = "[make_schedule_match ''C1'' 8 2000000 5 8 10 ''Mission St'' ''20th St - 21st St'',
          make_schedule_match ''C2'' 9 2000000 7 8 10 ''Mission St'' ''20th St - 21st St'',
          make_schedule_match ''C3'' 11 2000000 9 8 10 ''Mission St'' ''20th St - 21st St'']"
  have h: "3 \<le> length (relevant_matches (filter (\<lambda>m. sm_schedule_id m = 2000000) ?ms))"
    by (simp add: relevant_matches_def make_schedule_match_def calculate_time_relevance_def)
  show ?thesis
    using h C5_below_threshold_omitted [of "''C1''" 8 2000000 5 8 10 "''Mission St''"
                "''20th St - 21st St''" 2000000 ?ms]
    by blast
qed

subsection \<open>C6: idempotence of the normaliser\<close>

text \<open>
  C6. The claim: \<open>normalize (normalize x) = normalize x\<close> for every string \<open>x\<close>, where
  \<open>normalize\<close> is extraction followed by normalisation. It fails: the street-type loop
  also cuts a type that closes the string without a blank before it, so the token
  \<open>BROADWAY\<close> of \<open>BROADWAY ST\<close> is cut again to \<open>BROAD\<close>.
\<close>

theorem C6_not_idempotent:
  "normalize_token ''BROADWAY ST'' = ''BROADWAY''
   \<and> normalize_token (normalize_token ''BROADWAY ST'') = ''BROAD''
   \<and> normalize_token (normalize_token ''BROADWAY ST'') \<noteq> normalize_token ''BROADWAY ST''"
  by code_simp

text \<open>
  C6, amended. A second pass changes a token exactly when the token ends, with something
  before it, in one of the street types of the table: \<open>normalize (normalize x) = normalize x\<close>
  holds if and only if no street type is a proper suffix of \<open>normalize x\<close>.
\<close>

theorem C6_idempotent_iff:
  "normalize_token (normalize_token x) = normalize_token x
     \<longleftrightarrow> \<not> list_ex (proper_type_suffix (normalize_token x)) street_types"
proof (cases "find (proper_type_suffix (normalize_token x)) street_types")
  case None
  then have "\<not> list_ex (proper_type_suffix (normalize_token x)) street_types"
    by (simp add: find_None_iff list_ex_iff)
  moreover have "normalize_token (normalize_token x) = normalize_token x"
    unfolding normalize_token_def[of "normalize_token x"] extract_of_token
    using None by (simp add: normalize_street_name_token)
  ultimately show ?thesis by simp
next
  case (Some t)
  let ?s = "normalize_token x"
  from Some have ex: "list_ex (proper_type_suffix ?s) street_types"
    by (auto simp: find_Some_iff list_ex_iff)
  from find_proper_type_nonempty[OF Some] have lt: "0 < length t" "length t < length ?s" by auto
  have "length (normalize_token ?s) \<le> length (py_strip (drop_last (length t) ?s))"
    unfolding normalize_token_def[of ?s] extract_of_token
    using Some by (simp add: length_normalize_street_name)
  also have "\<dots> \<le> length (drop_last (length t) ?s)" by (rule length_py_strip)
  also have "\<dots> = length ?s - length t" by (simp add: drop_last_def)
  also have "\<dots> < length ?s" using lt by linarith
  finally have "normalize_token ?s \<noteq> ?s" by auto
  with ex show ?thesis by simp
qed

theorem C6_idempotent_iff_witness:
  "\<not> list_ex (proper_type_suffix (normalize_token ''100 Mission Street'')) street_types
   \<and> normalize_token (normalize_token ''100 Mission Street'') = normalize_token ''100 Mission Street''"
proof -
  have h: "\<not> list_ex (proper_type_suffix (normalize_token ''100 Mission Street'')) street_types"
    by code_simp
  show ?thesis using h C6_idempotent_iff [of "''100 Mission Street''"] by simp
qed

subsection \<open>C8: leading street numbers\<close>

text \<open>
  C8. The claim: an address that begins with a street number and whitespace loses that
  number in the matcher's street extraction, so \<open>123 MAIN ST\<close> and \<open>MAIN ST\<close> give the
  same token. The matcher's pattern asks for a backslash and the letters \<open>d\<close> and \<open>s\<close>
  instead of digits and whitespace, so the number stays: \<open>123 MAIN ST\<close> gives
  \<open>123 MAIN\<close> (and the token \<open>123MAIN\<close>), while \<open>MAIN ST\<close> gives \<open>MAIN\<close>.
\<close>

theorem C8_street_number_kept:
  "extract_street_from_address ''123 MAIN ST'' = ''123 MAIN''
   \<and> extract_street_from_address ''MAIN ST'' = ''MAIN''
   \<and> normalize_token ''123 MAIN ST'' = ''123MAIN''
   \<and> normalize_token ''MAIN ST'' = ''MAIN''"
  by code_simp

subsection \<open>C9: the distance stage\<close>

text \<open>
  C9. The claim: the distance that decides the last stage is the least distance from the
  citation to the points at the fractions 0, 0.25, 0.5, 0.75 and 1 of every segment of the
  rule's line, and the candidate is kept exactly when it is at most the limit. The
  day-specific matcher measures to the vertices only; the sampling is what the archived
  \<open>citation_schedule_matcher.py\<close> does. For a citation at the middle of a segment of
  about 1.1 km the sampled distance is 0 and the distance to the nearer vertex is 555 m,
  so with the limit of 200 m the matcher drops the candidate.
\<close>

theorem C9_midpoint_not_sampled:
  "calculate_distance_to_schedule planar_distance 37.765 (-122.420)
     [(37.760, -122.420), (37.770, -122.420)] = Some 555
   \<and> archive_calculate_distance_to_schedule planar_distance 37.765 (-122.420)
     [(37.760, -122.420), (37.770, -122.420)] = Some 0
   \<and> max_distance_meters default_config = 200
   \<and> distance_matches default_config planar_distance [long_rule]
        \<lparr> citation_id = ''C1'', address = ''2500 MISSION ST'', latitude = 37.765,
          longitude = -122.420, datetime = Some (Tuesday, 9, 0) \<rparr> [0] = []"
  by code_simp

text \<open>
  C9, amended. The distance that decides the last stage is the least distance from the
  citation to the vertices of the rule's line (infinite for a line without vertices), and
  a candidate becomes a match exactly when that distance is at most the limit.
\<close>

theorem C9_vertex_minimum:
  "calculate_distance_to_schedule geodesic lat lon coords =
     (if coords = [] then None else Some (Min (geodesic (lat, lon) ` set coords)))
   \<and> (m \<in> set (distance_matches cfg geodesic schedules c cands) \<longleftrightarrow>
        (\<exists>idx\<in>set cands. \<exists>d. schedule_distance geodesic c (schedules ! idx) = Some d
                              \<and> d \<le> max_distance_meters cfg
                              \<and> m = make_match c (schedules ! idx) d))"
  using calculate_distance_to_schedule_Min distance_matches_mem by blast

theorem C9_vertex_minimum_witness:
  "calculate_distance_to_schedule planar_distance 37.765 (-122.420)
     [(37.760, -122.420), (37.770, -122.420)] = Some 555
   \<and> make_match (tuesday_citation ''2500 MISSION ST'' 9 0) mission_rule 0
       \<in> set (distance_matches default_config planar_distance [mission_rule]
                (tuesday_citation ''2500 MISSION ST'' 9 0) [0])"
proof -
  have d: "schedule_distance planar_distance (tuesday_citation ''2500 MISSION ST'' 9 0) ([mission_rule] ! 0)
             = Some 0"
    by (simp add: schedule_distance_def mission_rule_fields tuesday_citation_def
        calculate_distance_to_schedule_def planar_distance_def)
  have m: "(0::real) \<le> max_distance_meters default_config" by (simp add: default_config_def)
  have "Min (planar_distance (37.765, -122.420) ` set [(37.760, -122.420), (37.770, -122.420)]) = 555"
    by (simp add: planar_distance_def)
  then show ?thesis
    using d m
      C9_vertex_minimum [of planar_distance "37.765" "-122.420" "[(37.760, -122.420), (37.770, -122.420)]"
        "make_match (tuesday_citation ''2500 MISSION ST'' 9 0) mission_rule 0" default_config
        "[mission_rule]" "tuesday_citation ''2500 MISSION ST'' 9 0" "[0]"]
    by auto
qed

subsection \<open>C10: citations without a street token\<close>

text \<open>
  C10. When the extracted and normalised street token of a citation is empty, the street
  stage hands every spatial candidate on, so that the matcher answers as if the day and
  time stage ran on the spatial candidates directly; when the token is not empty, a
  candidate is handed on exactly when it passes the containment test.
\<close>

theorem C10_empty_token_bypass:
  "(normalize_street_name (extract_street_from_address (address c)) = [] \<longrightarrow>
      street_candidates schedules
        (normalize_street_name (extract_street_from_address (address c))) spatial = spatial
      \<and> hybrid_match_citation fa cfg geodesic schedules grid c =
          map_option
            (\<lambda>spatial.
               let day_time = day_and_time_candidates schedules c spatial
               in if day_time = [] then []
                  else sort_key m_distance_meters (distance_matches cfg geodesic schedules c day_time))
            (spatial_candidates fa cfg grid (latitude c) (longitude c)))
   \<and> (tok \<noteq> [] \<longrightarrow>
        (idx \<in> set (street_candidates schedules tok spatial) \<longleftrightarrow>
           idx \<in> set spatial \<and> street_names_match tok (normalized_corridor (schedules ! idx))))"
proof (intro conjI impI)
  assume t: "normalize_street_name (extract_street_from_address (address c)) = []"
  show "street_candidates schedules
        (normalize_street_name (extract_street_from_address (address c))) spatial = spatial"
    by (simp add: t street_candidates_def)
  show "hybrid_match_citation fa cfg geodesic schedules grid c =
          map_option
            (\<lambda>spatial.
               let day_time = day_and_time_candidates schedules c spatial
               in if day_time = [] then []
                  else sort_key m_distance_meters (distance_matches cfg geodesic schedules c day_time))
            (spatial_candidates fa cfg grid (latitude c) (longitude c))"
    unfolding hybrid_match_citation_def Let_def t
    by (cases "spatial_candidates fa cfg grid (latitude c) (longitude c)")
       (simp_all add: match_candidates_no_street Let_def)
next
  assume "tok \<noteq> []"
  then show "idx \<in> set (street_candidates schedules tok spatial) \<longleftrightarrow>
           idx \<in> set spatial \<and> street_names_match tok (normalized_corridor (schedules ! idx))"
    by (auto simp: street_candidates_def)
qed

text \<open>
  An address of blanks has no token and is matched to the Mission St rule all the same; with
  the token \<open>MISSION\<close> that rule passes the street stage and with \<open>VALENCIA\<close> it does not.
\<close>

theorem C10_empty_token_bypass_witness:
  "normalize_street_name (extract_street_from_address (address (tuesday_citation ''   '' 9 0))) = []
   \<and> hybrid_match_citation exact_arith one_cell_config planar_distance [mission_rule]
        ((\<lambda>_. [])((41913, -107893) := [0]))
        (tuesday_citation ''   '' 9 0)
       = Some [make_match (tuesday_citation ''   '' 9 0) mission_rule 0]
   \<and> 0 \<in> set (street_candidates [mission_rule] ''MISSION'' [0])
   \<and> 0 \<notin> set (street_candidates [mission_rule] ''VALENCIA'' [0])"
proof -
  let ?c = "tuesday_citation ''   '' 9 0"
  let ?grid = "(\<lambda>_. [])((41913 :: int, -107893 :: int) := [0 :: nat])"
  have tok: "normalize_street_name (extract_street_from_address (address ?c)) = []"
    unfolding tuesday_citation_def by code_simp
  have sp: "spatial_candidates exact_arith one_cell_config ?grid (latitude ?c) (longitude ?c) = Some [0]"
    by (simp add: spatial_candidates_def lat_lon_to_grid_def exact_arith_def one_cell_config_def
        py_int_def tuesday_citation_def upto.simps)
  have dt: "day_and_time_candidates [mission_rule] ?c [0] = [0]"
    by (simp add: day_and_time_candidates_def mission_rule_fields tuesday_citation_def
        citation_weekday_def citation_time_decimal_def)
  have dm: "distance_matches one_cell_config planar_distance [mission_rule] ?c [0]
              = [make_match ?c mission_rule 0]"
    by (simp add: schedule_distance_def mission_rule_fields tuesday_citation_def
        calculate_distance_to_schedule_def planar_distance_def one_cell_config_def)
  have m1: "street_names_match ''MISSION'' (normalized_corridor ([mission_rule] ! 0))"
    by (simp add: street_names_match_def mission_rule_fields)
  have m2: "\<not> street_names_match ''VALENCIA'' (normalized_corridor ([mission_rule] ! 0))"
    by (simp add: street_names_match_def mission_rule_fields startswith_def)
  show ?thesis
    using tok sp dt dm m1 m2
      C10_empty_token_bypass [of ?c "[mission_rule]" "[0]" exact_arith one_cell_config planar_distance
        ?grid "''MISSION''" 0]
      C10_empty_token_bypass [of ?c "[mission_rule]" "[0]" exact_arith one_cell_config planar_distance
        ?grid "''VALENCIA''" 0]
    by (simp add: Let_def)
qed

end
